theory Spec2Isabelle
  imports Main
begin

section \<open>Values handed to the logging contract\<close>

text \<open>
  The contract's methods take \<^verbatim>\<open>keysAndValues ...any\<close>. The dynamic values that
  matter to the adapters are strings (the only legal keys), integers, booleans, errors
  (seen through \<^verbatim>\<open>Error()\<close>), and the three \<^verbatim>\<open>log/slog\<close> types a caller
  may pass: an \<^verbatim>\<open>slog.Level\<close>, an \<^verbatim>\<open>slog.Attr\<close> and a group-valued
  \<^verbatim>\<open>slog.Value\<close>. A nil interface value (and with it a nil error) is not among
  the values modelled.

  \<^verbatim>\<open>slog.Value\<close> is modelled by its kinds String, Int64, Bool, Any and Group. Of kind
  Any the model tells apart a payload that is an \<^verbatim>\<open>slog.Level\<close> (\<open>LevelValue\<close>),
  the one dynamic type the adapter asks for, from every other payload, which is carried
  as the text \<^verbatim>\<open>fmt\<close> prints for it (\<open>AnyValue\<close>). A Go \<^verbatim>\<open>int\<close> is carried as
  an unbounded integer: it is only compared and formatted.
\<close>

datatype Value =
    StringValue string
  | Int64Value int
  | BoolValue bool
  | LevelValue int
  | AnyValue string
  | GroupValue "Attr list"
and Attr = Attr (Key: string) (Val: Value)

datatype any =
    AStr string
  | AInt int
  | ABool bool
  | AErr string
  | ALevel int
  | AAttr Attr
  | AValue Value

subsection \<open>Levels\<close>

text \<open>\<^verbatim>\<open>slog.Level\<close> is an integer; the standard levels and the two custom ones.\<close>

definition LevelTrace :: int where "LevelTrace = - 8"
definition LevelDebug :: int where "LevelDebug = - 4"
definition LevelInfo :: int where "LevelInfo = 0"
definition LevelWarn :: int where "LevelWarn = 4"
definition LevelError :: int where "LevelError = 8"
definition LevelFatal :: int where "LevelFatal = 10"

subsection \<open>Formatting (\<^verbatim>\<open>strconv\<close>, \<^verbatim>\<open>strings\<close>, \<^verbatim>\<open>Value.String\<close>)\<close>

definition digit_char :: "nat \<Rightarrow> char" where
  "digit_char d = ''0123456789'' ! d"

text \<open>\<^verbatim>\<open>strconv.AppendInt(dst, v, 10)\<close>: the decimal digits, most significant first.\<close>

function digits :: "nat \<Rightarrow> string" where
  "digits n = (if n < 10 then [digit_char n] else digits (n div 10) @ [digit_char (n mod 10)])"
  by pat_completeness auto
termination
  by (relation "measure id") auto

declare digits.simps [simp del]

definition FormatInt :: "int \<Rightarrow> string" where
  "FormatInt i = (if i < 0 then CHR ''-'' # digits (nat (- i)) else digits (nat i))"

text \<open>\<^verbatim>\<open>strings.Join(elems, sep)\<close>.\<close>

fun Join :: "string list \<Rightarrow> string \<Rightarrow> string" where
  "Join [] sep = []"
| "Join [x] sep = x"
| "Join (x # y # ys) sep = x @ sep @ Join (y # ys) sep"

text \<open>
  \<^verbatim>\<open>Level.String()\<close>: the name of the nearest standard level at or below the level,
  followed by the signed distance to it when that is not zero (\<^verbatim>\<open>%+d\<close>).
\<close>

definition Level_str :: "string \<Rightarrow> int \<Rightarrow> string" where
  "Level_str base val =
     (if val = 0 then base
      else base @ (if val < 0 then FormatInt val else CHR ''+'' # FormatInt val))"

definition Level_String :: "int \<Rightarrow> string" where
  "Level_String l =
     (if l < LevelInfo then Level_str ''DEBUG'' (l - LevelDebug)
      else if l < LevelWarn then Level_str ''INFO'' (l - LevelInfo)
      else if l < LevelError then Level_str ''WARN'' (l - LevelWarn)
      else Level_str ''ERROR'' (l - LevelError))"

text \<open>
  \<^verbatim>\<open>Value.String()\<close>: a string as it is, an integer in decimal, a boolean as
  \<^verbatim>\<open>true\<close>/\<^verbatim>\<open>false\<close>, a value of kind Any as \<^verbatim>\<open>fmt\<close> prints it (a level
  through its \<^verbatim>\<open>String\<close> method; for another payload the model carries that text),
  a group as \<^verbatim>\<open>fmt\<close> prints a slice of attributes, each through
  \<^verbatim>\<open>Attr.String\<close> (\<^verbatim>\<open>key=value\<close>).
\<close>

fun Value_String :: "Value \<Rightarrow> string"
  and Attr_String :: "Attr \<Rightarrow> string" where
  "Value_String (StringValue s) = s"
| "Value_String (Int64Value i) = FormatInt i"
| "Value_String (BoolValue b) = (if b then ''true'' else ''false'')"
| "Value_String (LevelValue l) = Level_String l"
| "Value_String (AnyValue s) = s"
| "Value_String (GroupValue as) = ''['' @ Join (map Attr_String as) '' '' @ '']''"
| "Attr_String (Attr k v) = k @ ''='' @ Value_String v"

text \<open>
  \<^verbatim>\<open>strings.ToLower\<close> on the bytes of a string in UTF-8. The upper-case ASCII
  letters go to their lower-case letters. Exactly two runes outside ASCII have an ASCII
  lower case: U+0130 (bytes \<^verbatim>\<open>C4 B0\<close>) goes to \<^verbatim>\<open>i\<close> and U+212A (bytes
  \<^verbatim>\<open>E2 84 AA\<close>) goes to \<^verbatim>\<open>k\<close>; the bytes C4 and E2 start a rune wherever they stand,
  so the two sequences are recognised on the bytes. Every other rune outside ASCII goes
  to a rune outside ASCII, and an invalid byte to U+FFFD; the model carries such bytes
  over as they are, which is exact as to whether the result is a given ASCII word, the
  one use the adapters make of it.
\<close>

definition lower_char :: "char \<Rightarrow> char" where
  "lower_char c =
     (case map_of (zip ''ABCDEFGHIJKLMNOPQRSTUVWXYZ'' ''abcdefghijklmnopqrstuvwxyz'') c of
        Some d \<Rightarrow> d
      | None \<Rightarrow> c)"

function ToLower :: "string \<Rightarrow> string" where
  "ToLower [] = []"
| "ToLower (c # cs) =
     (if c = CHR 0xC4 \<and> take 1 cs = [CHR 0xB0] then CHR ''i'' # ToLower (drop 1 cs)
      else if c = CHR 0xE2 \<and> take 2 cs = [CHR 0x84, CHR 0xAA] then CHR ''k'' # ToLower (drop 2 cs)
      else lower_char c # ToLower cs)"
  by pat_completeness auto
termination
  by (relation "measure length") auto

section \<open>The slog backend (\<^verbatim>\<open>slog/slog.go\<close>)\<close>

subsection \<open>Configuration\<close>

definition logslog_parseLevel :: "string \<Rightarrow> int" where
  "logslog_parseLevel level =
     (let s = ToLower level in
      if s = ''trace'' then LevelTrace
      else if s = ''debug'' then LevelDebug
      else if s = ''info'' then LevelInfo
      else if s = ''warn'' \<or> s = ''warning'' then LevelWarn
      else if s = ''error'' then LevelError
      else if s = ''fatal'' then LevelFatal
      else LevelInfo)"

text \<open>
  \<^verbatim>\<open>Config\<close>. The writer is the one byte sink of the model (see \<open>effect\<close>
  below), so the record has no field for it.
\<close>

record Config =
  cfgLevel :: string
  cfgFormat :: string
  cfgGroupFieldName :: string

subsection \<open>Records, the sink, the process and panics\<close>

text \<open>
  An \<^verbatim>\<open>slog.Record\<close>. \<open>rTime\<close> holds the text that
  \<^verbatim>\<open>r.Time.Format("02 Jan 06 15:04 MST")\<close> yields for the record's time.
\<close>

record Record =
  rTime :: string
  rLevel :: int
  rMessage :: string
  rAttrs :: "Attr list"

text \<open>
  What the process does to the outside, in order: a call of the sink's
  \<^verbatim>\<open>Write\<close> with its bytes; an object the standard library's JSON handler encodes
  and writes with one \<^verbatim>\<open>Write\<close> (the encoding is not modelled: the effect keeps
  the record's time and, in order, the attributes that are encoded after it, which are
  the level, the message, the attributes bound to the handler and those of the record);
  a record the zerolog engine writes (its level, fields and message; again one write,
  encoding not modelled); and \<^verbatim>\<open>os.Exit\<close> with its status.
\<close>

datatype effect =
    Write string
  | WriteJSON string "Attr list"
  | WriteEvent int "(string \<times> any) list" string
  | Exit int

type_synonym world = "effect list"

text \<open>
  A type assertion \<^verbatim>\<open>x.(T)\<close> on a value of another dynamic type panics. The model
  keeps the value that was asserted on. A call that may panic returns \<open>Inl\<close> of the
  panic, or \<open>Inr\<close> of its result; \<open>and_then\<close> runs a second call on the result of a
  first one that returned.
\<close>

datatype panic = TypeAssertionError Value

definition and_then :: "panic + 'a \<Rightarrow> ('a \<Rightarrow> panic + 'b) \<Rightarrow> panic + 'b" where
  "and_then r f = (case r of Inl p \<Rightarrow> Inl p | Inr x \<Rightarrow> f x)"

subsection \<open>The console handler\<close>

text \<open>
  \<^verbatim>\<open>slog.HandlerOptions\<close>, with the two fields \<^verbatim>\<open>New\<close> sets: the minimum
  level and the function \<^verbatim>\<open>ReplaceAttr\<close>.
\<close>

record HandlerOptions =
  optLevel :: "int option"
  optReplaceAttr :: "(string list \<Rightarrow> Attr \<Rightarrow> panic + Attr) option"

record ConsoleHandler =
  opts :: HandlerOptions
  attrs :: "Attr list"
  groups :: "string list"
  groupFieldName :: string

definition NewConsoleHandler :: "HandlerOptions option \<Rightarrow> string \<Rightarrow> ConsoleHandler" where
  "NewConsoleHandler ho gfn =
     (let hopts = (case ho of None \<Rightarrow> \<lparr>optLevel = None, optReplaceAttr = None\<rparr> | Some x \<Rightarrow> x)
      in \<lparr>opts = hopts, attrs = [], groups = [], groupFieldName = gfn\<rparr>)"

definition ConsoleHandler_Enabled :: "ConsoleHandler \<Rightarrow> int \<Rightarrow> bool" where
  "ConsoleHandler_Enabled h level =
     (let minLevel = (case optLevel (opts h) of None \<Rightarrow> LevelInfo | Some l \<Rightarrow> l)
      in level \<ge> minLevel)"

text \<open>The escape sequence \<^verbatim>\<open>"\033[" code "m"\<close>.\<close>

definition esc :: "string \<Rightarrow> string" where
  "esc code = CHR 0x1B # CHR ''['' # code @ ''m''"

definition getLevelColor :: "int \<Rightarrow> string" where
  "getLevelColor level =
     (if level = LevelTrace then esc ''35''
      else if level = LevelDebug then esc ''33''
      else if level = LevelInfo then esc ''32''
      else if level = LevelWarn then esc ''33''
      else if level = LevelError \<or> level = LevelFatal then esc ''31''
      else esc ''0'')"

definition getLevelString :: "int \<Rightarrow> string" where
  "getLevelString level =
     (if level = LevelTrace then ''TRC''
      else if level = LevelDebug then ''DBG''
      else if level = LevelInfo then ''INF''
      else if level = LevelWarn then ''WRN''
      else if level = LevelError then ''ERR''
      else if level = LevelFatal then ''FTL''
      else ''???'')"

text \<open>
  \<^verbatim>\<open>appendAttr(buf, attr, groups)\<close>, returning the buffer. The loop over a
  group's attributes is \<open>appendAttrs\<close>; \<^verbatim>\<open>append(groups, attr.Key)\<close> is
  \<open>gs @ [k]\<close> (the callee only reads the slice it is handed, up to its length).
\<close>

fun appendAttr :: "string \<Rightarrow> Attr \<Rightarrow> string list \<Rightarrow> string"
  and appendAttrs :: "string \<Rightarrow> Attr list \<Rightarrow> string list \<Rightarrow> string" where
  "appendAttr buf (Attr k (GroupValue gas)) gs = appendAttrs buf gas (gs @ [k])"
| "appendAttr buf (Attr k v) gs =
     (let key = (if length gs > 0 then Join gs ''.'' @ ''.'' @ k else k)
      in buf @ '' '' @ esc ''36'' @ key @ esc ''0'' @ ''='' @ Value_String v)"
| "appendAttrs buf [] gs = buf"
| "appendAttrs buf (ga # gas) gs = appendAttrs (appendAttr buf ga gs) gas gs"

text \<open>
  The two searches for the group field: a loop over attributes that assigns
  \<^verbatim>\<open>group\<close> (here \<open>grp\<close>) at the first key equal to the field name and stops there.
\<close>

fun scanGroup :: "string \<Rightarrow> Attr list \<Rightarrow> string \<Rightarrow> string" where
  "scanGroup gfn [] grp = grp"
| "scanGroup gfn (a # as) grp =
     (if Key a = gfn then Value_String (Val a) else scanGroup gfn as grp)"

text \<open>The two loops that print the attributes, skipping the group field.\<close>

fun appendOthers :: "string \<Rightarrow> string \<Rightarrow> Attr list \<Rightarrow> string list \<Rightarrow> string" where
  "appendOthers buf gfn [] gs = buf"
| "appendOthers buf gfn (a # as) gs =
     appendOthers (if Key a \<noteq> gfn then appendAttr buf a gs else buf) gfn as gs"

text \<open>
  \<^verbatim>\<open>ConsoleHandler.Handle\<close>: the line built in the buffer, then the one
  \<^verbatim>\<open>Write\<close>. Its result is the error of that call, which
  \<^verbatim>\<open>slog.Logger.Log\<close> drops; the model records the call. The handler never reads
  the \<^verbatim>\<open>ReplaceAttr\<close> of its options.
\<close>

definition Handle_line :: "ConsoleHandler \<Rightarrow> Record \<Rightarrow> string" where
  "Handle_line h r =
     (let buf = esc ''90'' @ rTime r @ esc ''0'' @ '' '';
          buf = buf @ getLevelColor (rLevel r) @ getLevelString (rLevel r) @ esc ''0'' @ '' '';
          grp = scanGroup (groupFieldName h) (attrs h) '''';
          grp = (if grp = '''' then scanGroup (groupFieldName h) (rAttrs r) grp
                 else grp);
          buf = (if grp \<noteq> '''' then buf @ esc ''36'' @ ''['' @ grp @ '']'' @ esc ''0'' @ '' ''
                 else buf);
          buf = buf @ rMessage r;
          buf = appendOthers buf (groupFieldName h) (attrs h) (groups h);
          buf = appendOthers buf (groupFieldName h) (rAttrs r) (groups h)
      in buf @ [CHR 0x0A])"

definition ConsoleHandler_Handle :: "ConsoleHandler \<Rightarrow> Record \<Rightarrow> world \<Rightarrow> world" where
  "ConsoleHandler_Handle h r w = w @ [Write (Handle_line h r)]"

definition ConsoleHandler_WithAttrs :: "ConsoleHandler \<Rightarrow> Attr list \<Rightarrow> ConsoleHandler" where
  "ConsoleHandler_WithAttrs h as = h\<lparr>attrs := attrs h @ as\<rparr>"

definition ConsoleHandler_WithGroup :: "ConsoleHandler \<Rightarrow> string \<Rightarrow> ConsoleHandler" where
  "ConsoleHandler_WithGroup h name =
     (if name = '''' then h else h\<lparr>groups := groups h @ [name]\<rparr>)"

subsection \<open>What the adapter uses of the standard library's \<^verbatim>\<open>log/slog\<close>\<close>

text \<open>
  The adapter hands its arguments to \<^verbatim>\<open>slog.Logger\<close> unchanged, so what a call
  does is decided by documented pieces of the standard library, written out here:
  \<^verbatim>\<open>slog.AnyValue\<close>, the pairing of a variadic argument list into attributes
  (\<^verbatim>\<open>argsToAttr\<close>, with its key \<^verbatim>\<open>!BADKEY\<close> for a value without a key),
  \<^verbatim>\<open>Record.Add\<close>, the JSON handler's use of \<^verbatim>\<open>ReplaceAttr\<close>,
  \<^verbatim>\<open>Logger.With\<close> and \<^verbatim>\<open>Logger.Log\<close>.
\<close>

fun AnyValue_of :: "any \<Rightarrow> Value" where
  "AnyValue_of (AStr s) = StringValue s"
| "AnyValue_of (AInt i) = Int64Value i"
| "AnyValue_of (ABool b) = BoolValue b"
| "AnyValue_of (AErr e) = AnyValue e"
| "AnyValue_of (ALevel l) = LevelValue l"
| "AnyValue_of (AAttr a) = AnyValue (Attr_String a)"
| "AnyValue_of (AValue v) = v"

definition badKey :: string where
  "badKey = ''!BADKEY''"

fun argsToAttrSlice :: "any list \<Rightarrow> Attr list" where
  "argsToAttrSlice [] = []"
| "argsToAttrSlice [AStr x] = [Attr badKey (StringValue x)]"
| "argsToAttrSlice (AStr x # v # rest) = Attr x (AnyValue_of v) # argsToAttrSlice rest"
| "argsToAttrSlice (AAttr a # rest) = a # argsToAttrSlice rest"
| "argsToAttrSlice (x # rest) = Attr badKey (AnyValue_of x) # argsToAttrSlice rest"

definition isEmptyGroup :: "Value \<Rightarrow> bool" where
  "isEmptyGroup v = (case v of GroupValue as \<Rightarrow> as = [] | _ \<Rightarrow> False)"

text \<open>\<^verbatim>\<open>Record.Add\<close>: the attributes of the arguments, empty groups left out.\<close>

definition Record_Add :: "any list \<Rightarrow> Attr list" where
  "Record_Add args = filter (\<lambda>a. \<not> isEmptyGroup (Val a)) (argsToAttrSlice args)"

text \<open>
  The handler \<^verbatim>\<open>slog.NewJSONHandler\<close> returns. Of it the model keeps its options
  and the attributes bound so far, as they will be encoded (the handler formats them
  when they are bound).
\<close>

record slog_JSONHandler =
  jopts :: HandlerOptions
  jattrs :: "Attr list"

definition NewJSONHandler :: "HandlerOptions option \<Rightarrow> slog_JSONHandler" where
  "NewJSONHandler ho =
     \<lparr>jopts = (case ho of None \<Rightarrow> \<lparr>optLevel = None, optReplaceAttr = None\<rparr> | Some x \<Rightarrow> x),
      jattrs = []\<rparr>"

definition slog_JSONHandler_Enabled :: "slog_JSONHandler \<Rightarrow> int \<Rightarrow> bool" where
  "slog_JSONHandler_Enabled h level =
     (level \<ge> (case optLevel (jopts h) of None \<Rightarrow> LevelInfo | Some l \<Rightarrow> l))"

text \<open>
  How the handler formats an attribute (\<^verbatim>\<open>handleState.appendAttr\<close>), returning
  what is encoded for it. An attribute that is not a group is first handed to
  \<^verbatim>\<open>ReplaceAttr\<close>, when the options have one, together with the names of the
  groups open around it, and the attribute that function returns is encoded in its
  place; a panic of that function ends the formatting. A group is never handed to the
  function: its members are formatted in turn, inside the group's name (a group with
  the empty key is inlined: its members are encoded in its place), and a group from
  which nothing is encoded is left out.
  (A replacement that is itself a group would be formatted as one; the function
  \<^verbatim>\<open>New\<close> installs returns none, and the model encodes the replacement as it
  is.)
\<close>

fun handleState_appendAttr ::
    "(string list \<Rightarrow> Attr \<Rightarrow> panic + Attr) option \<Rightarrow> string list \<Rightarrow> Attr \<Rightarrow> panic + Attr list"
  and handleState_appendAttrs ::
    "(string list \<Rightarrow> Attr \<Rightarrow> panic + Attr) option \<Rightarrow> string list \<Rightarrow> Attr list \<Rightarrow> panic + Attr list" where
  "handleState_appendAttr rep gs (Attr k (GroupValue gas)) =
     (case handleState_appendAttrs rep (if k = '''' then gs else gs @ [k]) gas of
        Inl p \<Rightarrow> Inl p
      | Inr out \<Rightarrow> Inr (if out = [] then [] else if k = '''' then out else [Attr k (GroupValue out)]))"
| "handleState_appendAttr rep gs (Attr k v) =
     (case rep of
        None \<Rightarrow> Inr [Attr k v]
      | Some f \<Rightarrow> (case f gs (Attr k v) of Inl p \<Rightarrow> Inl p | Inr a \<Rightarrow> Inr [a]))"
| "handleState_appendAttrs rep gs [] = Inr []"
| "handleState_appendAttrs rep gs (a # as) =
     (case handleState_appendAttr rep gs a of
        Inl p \<Rightarrow> Inl p
      | Inr out \<Rightarrow>
          (case handleState_appendAttrs rep gs as of
             Inl p \<Rightarrow> Inl p
           | Inr outs \<Rightarrow> Inr (out @ outs)))"

definition LevelKey :: string where "LevelKey = ''level''"
definition MessageKey :: string where "MessageKey = ''msg''"

text \<open>
  \<^verbatim>\<open>Handle\<close> of that handler: the built-in attributes of the record are formatted
  like any other attribute, so with a \<^verbatim>\<open>ReplaceAttr\<close> they go through it (the
  level as a value of kind Any holding the \<^verbatim>\<open>slog.Level\<close>, the message as a
  string), then come the bound attributes and the record's own. The object is written
  by one \<^verbatim>\<open>Write\<close> after all of it has been formatted, so a panic while formatting
  leaves nothing written. The time, which is formatted first, is also handed to
  \<^verbatim>\<open>ReplaceAttr\<close>, under the key \<^verbatim>\<open>time\<close>; its value is of a kind the model
  does not have, the function \<^verbatim>\<open>New\<close> installs returns it unchanged, and the model
  leaves that one call out.
\<close>

definition slog_JSONHandler_Handle :: "slog_JSONHandler \<Rightarrow> Record \<Rightarrow> world \<Rightarrow> panic + world" where
  "slog_JSONHandler_Handle h r w =
     (let rep = optReplaceAttr (jopts h) in
      case handleState_appendAttr rep [] (Attr LevelKey (LevelValue (rLevel r))) of
        Inl p \<Rightarrow> Inl p
      | Inr lv \<Rightarrow>
          (case handleState_appendAttr rep [] (Attr MessageKey (StringValue (rMessage r))) of
             Inl p \<Rightarrow> Inl p
           | Inr ms \<Rightarrow>
               (case handleState_appendAttrs rep [] (rAttrs r) of
                  Inl p \<Rightarrow> Inl p
                | Inr out \<Rightarrow> Inr (w @ [WriteJSON (rTime r) (lv @ ms @ jattrs h @ out)]))))"

text \<open>
  \<^verbatim>\<open>WithAttrs\<close> of that handler: nothing to do when every attribute is an empty
  group; otherwise the attributes are formatted at once and kept with those bound
  before.
\<close>

definition countEmptyGroups :: "Attr list \<Rightarrow> nat" where
  "countEmptyGroups as = length (filter (\<lambda>a. isEmptyGroup (Val a)) as)"

definition slog_JSONHandler_WithAttrs :: "slog_JSONHandler \<Rightarrow> Attr list \<Rightarrow> panic + slog_JSONHandler" where
  "slog_JSONHandler_WithAttrs h as =
     (if countEmptyGroups as = length as then Inr h
      else (case handleState_appendAttrs (optReplaceAttr (jopts h)) [] as of
              Inl p \<Rightarrow> Inl p
            | Inr out \<Rightarrow> Inr (h\<lparr>jattrs := jattrs h @ out\<rparr>)))"

subsection \<open>The adapter's \<^verbatim>\<open>JSONHandler\<close>\<close>

text \<open>
  The repository's \<^verbatim>\<open>JSONHandler\<close> wraps the standard handler and forwards each of
  its methods to it.
\<close>

record JSONHandler =
  handler :: slog_JSONHandler

definition JSONHandler_Enabled :: "JSONHandler \<Rightarrow> int \<Rightarrow> bool" where
  "JSONHandler_Enabled h level = slog_JSONHandler_Enabled (handler h) level"

definition JSONHandler_Handle :: "JSONHandler \<Rightarrow> Record \<Rightarrow> world \<Rightarrow> panic + world" where
  "JSONHandler_Handle h r w = slog_JSONHandler_Handle (handler h) r w"

definition JSONHandler_WithAttrs :: "JSONHandler \<Rightarrow> Attr list \<Rightarrow> panic + JSONHandler" where
  "JSONHandler_WithAttrs h as =
     (case slog_JSONHandler_WithAttrs (handler h) as of
        Inl p \<Rightarrow> Inl p
      | Inr h' \<Rightarrow> Inr \<lparr>handler = h'\<rparr>)"

subsection \<open>\<^verbatim>\<open>slog.Logger\<close> over the two handlers\<close>

datatype Handler = Console ConsoleHandler | JSON JSONHandler

fun Handler_Enabled :: "Handler \<Rightarrow> int \<Rightarrow> bool" where
  "Handler_Enabled (Console h) level = ConsoleHandler_Enabled h level"
| "Handler_Enabled (JSON h) level = JSONHandler_Enabled h level"

fun Handler_Handle :: "Handler \<Rightarrow> Record \<Rightarrow> world \<Rightarrow> panic + world" where
  "Handler_Handle (Console h) r w = Inr (ConsoleHandler_Handle h r w)"
| "Handler_Handle (JSON h) r w = JSONHandler_Handle h r w"

fun Handler_WithAttrs :: "Handler \<Rightarrow> Attr list \<Rightarrow> panic + Handler" where
  "Handler_WithAttrs (Console h) as = Inr (Console (ConsoleHandler_WithAttrs h as))"
| "Handler_WithAttrs (JSON h) as =
     (case JSONHandler_WithAttrs h as of Inl p \<Rightarrow> Inl p | Inr h' \<Rightarrow> Inr (JSON h'))"

text \<open>
  \<^verbatim>\<open>Logger.Log(ctx, level, msg, args...)\<close>: nothing when the handler is not enabled
  for the level; otherwise a record with the current time (\<open>now\<close>, already formatted),
  the level, the message and the arguments' attributes goes to the handler, whose error
  result is dropped.
\<close>

definition Logger_Log :: "Handler \<Rightarrow> string \<Rightarrow> int \<Rightarrow> string \<Rightarrow> any list \<Rightarrow> world \<Rightarrow> panic + world" where
  "Logger_Log h now level msg args w =
     (if Handler_Enabled h level
      then Handler_Handle h \<lparr>rTime = now, rLevel = level, rMessage = msg, rAttrs = Record_Add args\<rparr> w
      else Inr w)"

definition Logger_With :: "Handler \<Rightarrow> any list \<Rightarrow> panic + Handler" where
  "Logger_With h args = (if args = [] then Inr h else Handler_WithAttrs h (argsToAttrSlice args))"

subsection \<open>The adapter \<^verbatim>\<open>SlogLogger\<close>\<close>

record SlogLogger =
  logger :: Handler
  lGroupFieldName :: string

text \<open>
  The function \<^verbatim>\<open>New\<close> sets as \<^verbatim>\<open>ReplaceAttr\<close>: on an attribute with the key
  \<^verbatim>\<open>level\<close> it asserts that the value holds an \<^verbatim>\<open>slog.Level\<close>, with the
  one-result form of the type assertion, which panics on every other value; the two
  custom levels are replaced by their names.
\<close>

definition New_ReplaceAttr :: "string list \<Rightarrow> Attr \<Rightarrow> panic + Attr" where
  "New_ReplaceAttr gs a =
     (if Key a = LevelKey then
        (case Val a of
           LevelValue level \<Rightarrow>
             if level = LevelTrace then Inr (Attr LevelKey (StringValue ''TRACE''))
             else if level = LevelFatal then Inr (Attr LevelKey (StringValue ''FATAL''))
             else Inr a
         | v \<Rightarrow> Inl (TypeAssertionError v))
      else Inr a)"

text \<open>
  \<^verbatim>\<open>New\<close>: the defaults for empty fields, the parsed level, the options and the
  handler for the format.
\<close>

definition logslog_New :: "Config \<Rightarrow> SlogLogger" where
  "logslog_New cfg =
     (let format = (if cfgFormat cfg = '''' then ''console'' else cfgFormat cfg);
          lv = (if cfgLevel cfg = '''' then ''info'' else cfgLevel cfg);
          gfn = (if cfgGroupFieldName cfg = '''' then ''_group'' else cfgGroupFieldName cfg);
          level = logslog_parseLevel lv;
          hopts = \<lparr>optLevel = Some level, optReplaceAttr = Some New_ReplaceAttr\<rparr>;
          hdl = (if format = ''json'' then JSON \<lparr>handler = NewJSONHandler (Some hopts)\<rparr>
                 else Console (NewConsoleHandler (Some hopts) gfn))
      in \<lparr>logger = hdl, lGroupFieldName = gfn\<rparr>)"

definition SlogLogger_log :: "SlogLogger \<Rightarrow> string \<Rightarrow> int \<Rightarrow> string \<Rightarrow> any list \<Rightarrow> world \<Rightarrow> panic + world" where
  "SlogLogger_log l now level msg keysAndValues w =
     Logger_Log (logger l) now level msg keysAndValues w"

definition SlogLogger_Trace :: "SlogLogger \<Rightarrow> string \<Rightarrow> string \<Rightarrow> any list \<Rightarrow> world \<Rightarrow> panic + world" where
  "SlogLogger_Trace l now msg keysAndValues w = SlogLogger_log l now LevelTrace msg keysAndValues w"

definition SlogLogger_Debug :: "SlogLogger \<Rightarrow> string \<Rightarrow> string \<Rightarrow> any list \<Rightarrow> world \<Rightarrow> panic + world" where
  "SlogLogger_Debug l now msg keysAndValues w = SlogLogger_log l now LevelDebug msg keysAndValues w"

definition SlogLogger_Info :: "SlogLogger \<Rightarrow> string \<Rightarrow> string \<Rightarrow> any list \<Rightarrow> world \<Rightarrow> panic + world" where
  "SlogLogger_Info l now msg keysAndValues w = SlogLogger_log l now LevelInfo msg keysAndValues w"

definition SlogLogger_Warn :: "SlogLogger \<Rightarrow> string \<Rightarrow> string \<Rightarrow> any list \<Rightarrow> world \<Rightarrow> panic + world" where
  "SlogLogger_Warn l now msg keysAndValues w = SlogLogger_log l now LevelWarn msg keysAndValues w"

definition SlogLogger_Error :: "SlogLogger \<Rightarrow> string \<Rightarrow> string \<Rightarrow> any list \<Rightarrow> world \<Rightarrow> panic + world" where
  "SlogLogger_Error l now msg keysAndValues w = SlogLogger_log l now LevelError msg keysAndValues w"

text \<open>
  \<^verbatim>\<open>Fatal\<close>: the emission, and after it \<^verbatim>\<open>os.Exit(1)\<close>, which a panic of the
  emission does not reach.
\<close>

definition SlogLogger_Fatal :: "SlogLogger \<Rightarrow> string \<Rightarrow> string \<Rightarrow> any list \<Rightarrow> world \<Rightarrow> panic + world" where
  "SlogLogger_Fatal l now msg keysAndValues w =
     (case SlogLogger_log l now LevelFatal msg keysAndValues w of
        Inl p \<Rightarrow> Inl p
      | Inr w1 \<Rightarrow> Inr (w1 @ [Exit 1]))"

definition SlogLogger_With :: "SlogLogger \<Rightarrow> string \<Rightarrow> any \<Rightarrow> panic + SlogLogger" where
  "SlogLogger_With l key v =
     (case Logger_With (logger l) [AStr key, v] of
        Inl p \<Rightarrow> Inl p
      | Inr lg \<Rightarrow> Inr \<lparr>logger = lg, lGroupFieldName = lGroupFieldName l\<rparr>)"

text \<open>
  An error is carried by its message (the text of \<^verbatim>\<open>err.Error()\<close>); the nil
  error is not among the inputs modelled.
\<close>

definition SlogLogger_WithError :: "SlogLogger \<Rightarrow> string \<Rightarrow> panic + SlogLogger" where
  "SlogLogger_WithError l err =
     (case Logger_With (logger l) [AStr ''error'', AErr err] of
        Inl p \<Rightarrow> Inl p
      | Inr lg \<Rightarrow> Inr \<lparr>logger = lg, lGroupFieldName = lGroupFieldName l\<rparr>)"

definition SlogLogger_WithGroup :: "SlogLogger \<Rightarrow> string \<Rightarrow> panic + SlogLogger" where
  "SlogLogger_WithGroup l g =
     (case Logger_With (logger l) [AStr (lGroupFieldName l), AStr g] of
        Inl p \<Rightarrow> Inl p
      | Inr lg \<Rightarrow> Inr \<lparr>logger = lg, lGroupFieldName = lGroupFieldName l\<rparr>)"

section \<open>The null backend\<close>

datatype NullLogger = NullLogger

definition NullLogger_Trace :: "NullLogger \<Rightarrow> string \<Rightarrow> any list \<Rightarrow> world \<Rightarrow> world" where
  "NullLogger_Trace n msg keysAndValues w = w"

definition NullLogger_Debug :: "NullLogger \<Rightarrow> string \<Rightarrow> any list \<Rightarrow> world \<Rightarrow> world" where
  "NullLogger_Debug n msg keysAndValues w = w"

definition NullLogger_Info :: "NullLogger \<Rightarrow> string \<Rightarrow> any list \<Rightarrow> world \<Rightarrow> world" where
  "NullLogger_Info n msg keysAndValues w = w"

definition NullLogger_Warn :: "NullLogger \<Rightarrow> string \<Rightarrow> any list \<Rightarrow> world \<Rightarrow> world" where
  "NullLogger_Warn n msg keysAndValues w = w"

definition NullLogger_Error :: "NullLogger \<Rightarrow> string \<Rightarrow> any list \<Rightarrow> world \<Rightarrow> world" where
  "NullLogger_Error n msg keysAndValues w = w"

definition NullLogger_Fatal :: "NullLogger \<Rightarrow> string \<Rightarrow> any list \<Rightarrow> world \<Rightarrow> world" where
  "NullLogger_Fatal n msg keysAndValues w = w"

definition NullLogger_With :: "NullLogger \<Rightarrow> string \<Rightarrow> any \<Rightarrow> NullLogger" where
  "NullLogger_With n key v = n"

definition NullLogger_WithError :: "NullLogger \<Rightarrow> string \<Rightarrow> NullLogger" where
  "NullLogger_WithError n err = n"

definition NullLogger_WithGroup :: "NullLogger \<Rightarrow> string \<Rightarrow> NullLogger" where
  "NullLogger_WithGroup n g = n"

section \<open>The zerolog backend\<close>

text \<open>
  The adapter builds each record through the engine's event builder. Of the engine the
  model keeps what the adapter relies on: a logger has a minimum level and the fields
  bound so far; asking it for an event at a level below the minimum yields the nil
  event, on which every call does nothing; on a live event \<^verbatim>\<open>Interface\<close> adds a
  field and \<^verbatim>\<open>Msg\<close> has the record written once. The engine's global level is
  taken at its default, which filters nothing.
\<close>

definition zTraceLevel :: int where "zTraceLevel = - 1"
definition zDebugLevel :: int where "zDebugLevel = 0"
definition zWarnLevel :: int where "zWarnLevel = 2"
definition zErrorLevel :: int where "zErrorLevel = 3"

record zLogger =
  zlevel :: int
  zcontext :: "(string \<times> any) list"

record Event =
  eLevel :: int
  eFields :: "(string \<times> any) list"

definition newEvent :: "zLogger \<Rightarrow> int \<Rightarrow> Event option" where
  "newEvent l level =
     (if level < zlevel l then None else Some \<lparr>eLevel = level, eFields = zcontext l\<rparr>)"

definition Event_Interface :: "Event option \<Rightarrow> string \<Rightarrow> any \<Rightarrow> Event option" where
  "Event_Interface e key v =
     (case e of None \<Rightarrow> None | Some ev \<Rightarrow> Some (ev\<lparr>eFields := eFields ev @ [(key, v)]\<rparr>))"

definition Event_Msg :: "Event option \<Rightarrow> string \<Rightarrow> world \<Rightarrow> world" where
  "Event_Msg e msg w =
     (case e of None \<Rightarrow> w | Some ev \<Rightarrow> w @ [WriteEvent (eLevel ev) (eFields ev) msg])"

record ZerologLogger =
  zlogger :: zLogger




text \<open>
  The loop of \<^verbatim>\<open>ZerologLogger.log\<close>, from index \<open>i\<close>: a pair is added when its
  value exists and its key is a string; otherwise the index moves on by two all the same.
\<close>

function log_loop :: "any list \<Rightarrow> nat \<Rightarrow> Event option \<Rightarrow> Event option" where
  "log_loop keysAndValues i e =
     (if i < length keysAndValues then
        (if i + 1 < length keysAndValues then
           (case keysAndValues ! i of
              AStr key \<Rightarrow> log_loop keysAndValues (i + 2) (Event_Interface e key (keysAndValues ! (i + 1)))
            | _ \<Rightarrow> log_loop keysAndValues (i + 2) e)
         else log_loop keysAndValues (i + 2) e)
      else e)"
  by pat_completeness auto
termination
  by (relation "measure (\<lambda>(kvs, i, e). length kvs - i)") auto

declare log_loop.simps [simp del]

definition ZerologLogger_log :: "Event option \<Rightarrow> string \<Rightarrow> any list \<Rightarrow> world \<Rightarrow> world" where
  "ZerologLogger_log e msg keysAndValues w = Event_Msg (log_loop keysAndValues 0 e) msg w"

definition ZerologLogger_Trace :: "ZerologLogger \<Rightarrow> string \<Rightarrow> any list \<Rightarrow> world \<Rightarrow> world" where
  "ZerologLogger_Trace l msg keysAndValues w =
     ZerologLogger_log (newEvent (zlogger l) zTraceLevel) msg keysAndValues w"

definition ZerologLogger_Debug :: "ZerologLogger \<Rightarrow> string \<Rightarrow> any list \<Rightarrow> world \<Rightarrow> world" where
  "ZerologLogger_Debug l msg keysAndValues w =
     ZerologLogger_log (newEvent (zlogger l) zDebugLevel) msg keysAndValues w"


definition ZerologLogger_Warn :: "ZerologLogger \<Rightarrow> string \<Rightarrow> any list \<Rightarrow> world \<Rightarrow> world" where
  "ZerologLogger_Warn l msg keysAndValues w =
     ZerologLogger_log (newEvent (zlogger l) zWarnLevel) msg keysAndValues w"

definition ZerologLogger_Error :: "ZerologLogger \<Rightarrow> string \<Rightarrow> any list \<Rightarrow> world \<Rightarrow> world" where
  "ZerologLogger_Error l msg keysAndValues w =
     ZerologLogger_log (newEvent (zlogger l) zErrorLevel) msg keysAndValues w"

definition ZerologLogger_With :: "ZerologLogger \<Rightarrow> string \<Rightarrow> any \<Rightarrow> ZerologLogger" where
  "ZerologLogger_With l key v =
     \<lparr>zlogger = (zlogger l)\<lparr>zcontext := zcontext (zlogger l) @ [(key, v)]\<rparr>\<rparr>"

definition ZerologLogger_WithError :: "ZerologLogger \<Rightarrow> string \<Rightarrow> ZerologLogger" where
  "ZerologLogger_WithError l err =
     \<lparr>zlogger = (zlogger l)\<lparr>zcontext := zcontext (zlogger l) @ [(''error'', AErr err)]\<rparr>\<rparr>"

definition ZerologLogger_WithGroup :: "ZerologLogger \<Rightarrow> string \<Rightarrow> ZerologLogger" where
  "ZerologLogger_WithGroup l g =
     \<lparr>zlogger = (zlogger l)\<lparr>zcontext := zcontext (zlogger l) @ [(''group'', AStr g)]\<rparr>\<rparr>"

section \<open>The capturing backend (\<^verbatim>\<open>testing/mock.go\<close>)\<close>

subsection \<open>Memory: slices, maps and logger objects\<close>

text \<open>
  A \<^verbatim>\<open>MockLogger\<close> is used through a pointer and assigns to its own
  \<^verbatim>\<open>Entries\<close> field, a slice value (pointer to a backing array, length,
  capacity) is copied from parent to child, and a map is a reference. What a query
  observes therefore depends on which arrays and maps are shared, and the model keeps
  them in an explicit memory: backing arrays of entries, maps, logger objects and the
  variables that escape through a returned pointer, all addressed by numbers handed out
  in increasing order. Address \<open>0\<close> is the nil reference.

  The \<^verbatim>\<open>KeysAndValues\<close> of an entry is the caller's argument slice; the logger
  never stores into it, and the model carries its elements by value. The mutex is left
  out: the model is of a single thread of control.
\<close>

type_synonym addr = nat

record LogEntry =
  Level :: string
  Message :: string
  KeysAndValues :: "any list"
  Attrs :: addr
  Group :: string

record slice =
  sbase :: addr
  slen :: nat
  scap :: nat

record MockLogger =
  Entries :: slice
  mattrs :: addr
  mgroup :: string

record heap =
  harrays :: "addr \<Rightarrow> LogEntry list"
  hmaps :: "addr \<Rightarrow> (string \<rightharpoonup> any)"
  hobjs :: "addr \<Rightarrow> MockLogger"
  hcells :: "addr \<Rightarrow> LogEntry"
  hlim :: addr

definition zeroEntry :: LogEntry where
  "zeroEntry = \<lparr>Level = '''', Message = '''', KeysAndValues = [], Attrs = 0, Group = ''''\<rparr>"

definition zeroLogger :: MockLogger where
  "zeroLogger = \<lparr>Entries = \<lparr>sbase = 0, slen = 0, scap = 0\<rparr>, mattrs = 0, mgroup = ''''\<rparr>"

definition empty_heap :: heap where
  "empty_heap =
     \<lparr>harrays = (\<lambda>a. []), hmaps = (\<lambda>a. Map.empty), hobjs = (\<lambda>a. zeroLogger),
      hcells = (\<lambda>a. zeroEntry), hlim = 1\<rparr>"

definition alloc_array :: "LogEntry list \<Rightarrow> heap \<Rightarrow> addr \<times> heap" where
  "alloc_array xs h = (hlim h, h\<lparr>harrays := (harrays h)(hlim h := xs), hlim := hlim h + 1\<rparr>)"

definition alloc_map :: "(string \<rightharpoonup> any) \<Rightarrow> heap \<Rightarrow> addr \<times> heap" where
  "alloc_map m h = (hlim h, h\<lparr>hmaps := (hmaps h)(hlim h := m), hlim := hlim h + 1\<rparr>)"

definition alloc_obj :: "MockLogger \<Rightarrow> heap \<Rightarrow> addr \<times> heap" where
  "alloc_obj l h = (hlim h, h\<lparr>hobjs := (hobjs h)(hlim h := l), hlim := hlim h + 1\<rparr>)"

definition alloc_cell :: "LogEntry \<Rightarrow> heap \<Rightarrow> addr \<times> heap" where
  "alloc_cell e h = (hlim h, h\<lparr>hcells := (hcells h)(hlim h := e), hlim := hlim h + 1\<rparr>)"

text \<open>\<^verbatim>\<open>make([]LogEntry, n)\<close>: a fresh array of \<open>n\<close> zero entries.\<close>

definition make_slice :: "nat \<Rightarrow> heap \<Rightarrow> slice \<times> heap" where
  "make_slice n h =
     (let (a, h1) = alloc_array (replicate n zeroEntry) h
      in (\<lparr>sbase = a, slen = n, scap = n\<rparr>, h1))"

text \<open>The elements a slice shows: the first \<open>slen\<close> of its backing array.\<close>

definition elems :: "heap \<Rightarrow> slice \<Rightarrow> LogEntry list" where
  "elems h s = take (slen s) (harrays h (sbase s))"

text \<open>
  The capacity the Go runtime picks when an append outgrows the array
  (\<^verbatim>\<open>nextslicecap(newLen, oldCap)\<close>, before the allocator rounds it up to a size
  class, which no theorem below depends on).
\<close>

function grow_loop :: "nat \<Rightarrow> nat \<Rightarrow> nat" where
  "grow_loop newcap newLen =
     (let n = newcap + (newcap + 3 * 256) div 4
      in if n \<ge> newLen then n else grow_loop n newLen)"
  by pat_completeness auto
termination
  by (relation "measure (\<lambda>(c, l). l - c)") auto

declare grow_loop.simps [simp del]

definition nextslicecap :: "nat \<Rightarrow> nat \<Rightarrow> nat" where
  "nextslicecap newLen oldCap =
     (let doublecap = oldCap + oldCap
      in if newLen > doublecap then newLen
         else if oldCap < 256 then doublecap
         else grow_loop oldCap newLen)"

text \<open>
  \<^verbatim>\<open>append(s, e)\<close>: with room left, the element is stored in the backing array at
  index \<open>slen\<close> and the result shares the array; without room, the elements are copied
  to a fresh, larger array. Either way only the returned slice value has the new
  length.
\<close>

definition append1 :: "slice \<Rightarrow> LogEntry \<Rightarrow> heap \<Rightarrow> slice \<times> heap" where
  "append1 s e h =
     (if slen s < scap s
      then (s\<lparr>slen := slen s + 1\<rparr>,
            h\<lparr>harrays := (harrays h)(sbase s := (harrays h (sbase s))[slen s := e])\<rparr>)
      else (let c = nextslicecap (slen s + 1) (scap s);
                xs = elems h s @ [e] @ replicate (c - (slen s + 1)) zeroEntry;
                (a, h1) = alloc_array xs h
            in (\<lparr>sbase = a, slen = slen s + 1, scap = c\<rparr>, h1)))"

subsection \<open>The logger\<close>

definition logtesting_New :: "heap \<Rightarrow> addr \<times> heap" where
  "logtesting_New h =
     (let (s, h1) = make_slice 0 h;
          (a, h2) = alloc_map Map.empty h1
      in alloc_obj \<lparr>Entries = s, mattrs = a, mgroup = ''''\<rparr> h2)"

text \<open>
  \<^verbatim>\<open>log\<close>: a new map receives every pair of the logger's map (the loop over the
  map, whose order does not matter to the result), the entry is appended, and the
  resulting slice is assigned to this logger's \<^verbatim>\<open>Entries\<close>.
\<close>

definition MockLogger_log :: "addr \<Rightarrow> string \<Rightarrow> string \<Rightarrow> any list \<Rightarrow> heap \<Rightarrow> heap" where
  "MockLogger_log m level msg keysAndValues h =
     (let (a, h1) = alloc_map (hmaps h (mattrs (hobjs h m))) h;
          e = \<lparr>Level = level, Message = msg, KeysAndValues = keysAndValues, Attrs = a,
               Group = mgroup (hobjs h1 m)\<rparr>;
          (s, h2) = append1 (Entries (hobjs h1 m)) e h1
      in h2\<lparr>hobjs := (hobjs h2)(m := (hobjs h2 m)\<lparr>Entries := s\<rparr>)\<rparr>)"

definition MockLogger_Trace :: "addr \<Rightarrow> string \<Rightarrow> any list \<Rightarrow> heap \<Rightarrow> heap" where
  "MockLogger_Trace m msg keysAndValues h = MockLogger_log m ''trace'' msg keysAndValues h"

definition MockLogger_Debug :: "addr \<Rightarrow> string \<Rightarrow> any list \<Rightarrow> heap \<Rightarrow> heap" where
  "MockLogger_Debug m msg keysAndValues h = MockLogger_log m ''debug'' msg keysAndValues h"

definition MockLogger_Info :: "addr \<Rightarrow> string \<Rightarrow> any list \<Rightarrow> heap \<Rightarrow> heap" where
  "MockLogger_Info m msg keysAndValues h = MockLogger_log m ''info'' msg keysAndValues h"

definition MockLogger_Warn :: "addr \<Rightarrow> string \<Rightarrow> any list \<Rightarrow> heap \<Rightarrow> heap" where
  "MockLogger_Warn m msg keysAndValues h = MockLogger_log m ''warn'' msg keysAndValues h"

definition MockLogger_Error :: "addr \<Rightarrow> string \<Rightarrow> any list \<Rightarrow> heap \<Rightarrow> heap" where
  "MockLogger_Error m msg keysAndValues h = MockLogger_log m ''error'' msg keysAndValues h"

definition MockLogger_Fatal :: "addr \<Rightarrow> string \<Rightarrow> any list \<Rightarrow> heap \<Rightarrow> heap" where
  "MockLogger_Fatal m msg keysAndValues h = MockLogger_log m ''fatal'' msg keysAndValues h"

text \<open>
  \<^verbatim>\<open>With\<close>: a new map with the receiver's pairs and the new one, and a new logger
  object whose \<^verbatim>\<open>Entries\<close> is a copy of the receiver's slice value.
\<close>

definition MockLogger_With :: "addr \<Rightarrow> string \<Rightarrow> any \<Rightarrow> heap \<Rightarrow> addr \<times> heap" where
  "MockLogger_With m key v h =
     (let (newAttrs, h1) = alloc_map (hmaps h (mattrs (hobjs h m))) h;
          h2 = h1\<lparr>hmaps := (hmaps h1)(newAttrs := (hmaps h1 newAttrs)(key \<mapsto> v))\<rparr>
      in alloc_obj \<lparr>Entries = Entries (hobjs h2 m), mattrs = newAttrs, mgroup = mgroup (hobjs h2 m)\<rparr> h2)"

text \<open>
  \<^verbatim>\<open>WithError\<close>: \<^verbatim>\<open>With\<close> under the key \<^verbatim>\<open>error\<close>, the value being the text of
  \<^verbatim>\<open>err.Error()\<close>. The error is given by that text; the nil error, on which that call
  panics, is not among the inputs modelled.
\<close>

definition MockLogger_WithError :: "addr \<Rightarrow> string \<Rightarrow> heap \<Rightarrow> addr \<times> heap" where
  "MockLogger_WithError m err h = MockLogger_With m ''error'' (AStr err) h"

definition MockLogger_WithGroup :: "addr \<Rightarrow> string \<Rightarrow> heap \<Rightarrow> addr \<times> heap" where
  "MockLogger_WithGroup m g h =
     (let (newAttrs, h1) = alloc_map (hmaps h (mattrs (hobjs h m))) h
      in alloc_obj \<lparr>Entries = Entries (hobjs h1 m), mattrs = newAttrs, mgroup = g\<rparr> h1)"

definition MockLogger_Reset :: "addr \<Rightarrow> heap \<Rightarrow> heap" where
  "MockLogger_Reset m h =
     (let (s, h1) = make_slice 0 h
      in h1\<lparr>hobjs := (hobjs h1)(m := (hobjs h1 m)\<lparr>Entries := s\<rparr>)\<rparr>)"

text \<open>
  \<^verbatim>\<open>GetEntries\<close> copies the logger's elements into a new slice; the model returns the
  elements of that copy.
\<close>

definition MockLogger_GetEntries :: "addr \<Rightarrow> heap \<Rightarrow> LogEntry list" where
  "MockLogger_GetEntries m h = elems h (Entries (hobjs h m))"

fun HasEntry_loop :: "LogEntry list \<Rightarrow> string \<Rightarrow> string \<Rightarrow> bool" where
  "HasEntry_loop [] level message = False"
| "HasEntry_loop (entry # es) level message =
     (if Level entry = level \<and> Message entry = message then True
      else HasEntry_loop es level message)"

definition MockLogger_HasEntry :: "addr \<Rightarrow> string \<Rightarrow> string \<Rightarrow> heap \<Rightarrow> bool" where
  "MockLogger_HasEntry m level message h =
     HasEntry_loop (elems h (Entries (hobjs h m))) level message"

fun CountEntries_loop :: "LogEntry list \<Rightarrow> string \<Rightarrow> nat \<Rightarrow> nat" where
  "CountEntries_loop [] level count = count"
| "CountEntries_loop (entry # es) level count =
     CountEntries_loop es level (if Level entry = level then count + 1 else count)"

definition MockLogger_CountEntries :: "addr \<Rightarrow> string \<Rightarrow> heap \<Rightarrow> nat" where
  "MockLogger_CountEntries m level h =
     CountEntries_loop (elems h (Entries (hobjs h m))) level 0"

text \<open>
  \<^verbatim>\<open>LastEntry\<close>: nil (\<open>None\<close>) for a logger whose slice has length zero; otherwise
  the last element is copied into a fresh variable, whose address is returned.
\<close>

definition MockLogger_LastEntry :: "addr \<Rightarrow> heap \<Rightarrow> addr option \<times> heap" where
  "MockLogger_LastEntry m h =
     (let s = Entries (hobjs h m)
      in if slen s = 0 then (None, h)
         else (let (p, h1) = alloc_cell (harrays h (sbase s) ! (slen s - 1)) h
               in (Some p, h1)))"

subsection \<open>What a test does with a returned entry\<close>

text \<open>
  The two kinds of Go statement by which a caller can change an entry it holds a pointer
  to: assigning one of its fields (\<^verbatim>\<open>e.Message = s\<close>), and storing into the map
  its \<^verbatim>\<open>Attrs\<close> field refers to (\<^verbatim>\<open>e.Attrs[k] = v\<close>).
\<close>

definition assign_Message :: "addr \<Rightarrow> string \<Rightarrow> heap \<Rightarrow> heap" where
  "assign_Message p s h = h\<lparr>hcells := (hcells h)(p := (hcells h p)\<lparr>Message := s\<rparr>)\<rparr>"

definition store_Attrs :: "addr \<Rightarrow> string \<Rightarrow> any \<Rightarrow> heap \<Rightarrow> heap" where
  "store_Attrs p k v h =
     (let a = Attrs (hcells h p)
      in h\<lparr>hmaps := (hmaps h)(a := (hmaps h a)(k \<mapsto> v))\<rparr>)"

text \<open>
  What a reader of the captured sequence sees of each entry: its fields, with the
  contents of the map in place of the reference.
\<close>

definition entry_view :: "heap \<Rightarrow> LogEntry \<Rightarrow> string \<times> string \<times> any list \<times> (string \<rightharpoonup> any) \<times> string" where
  "entry_view h e = (Level e, Message e, KeysAndValues e, hmaps h (Attrs e), Group e)"

definition captured :: "addr \<Rightarrow> heap \<Rightarrow> (string \<times> string \<times> any list \<times> (string \<rightharpoonup> any) \<times> string) list" where
  "captured m h = map (entry_view h) (MockLogger_GetEntries m h)"

text \<open>The attributes a logger has bound: the contents of its map.\<close>

definition bound_attrs :: "heap \<Rightarrow> addr \<Rightarrow> (string \<rightharpoonup> any)" where
  "bound_attrs h m = hmaps h (mattrs (hobjs h m))"

section \<open>The memory behind \<^verbatim>\<open>ConsoleHandler.WithAttrs\<close>\<close>

text \<open>
  Above, a handler's attributes are a list value. In the program they are a slice, and
  \<^verbatim>\<open>WithAttrs\<close> builds the child's slice with \<^verbatim>\<open>make\<close> and two
  \<^verbatim>\<open>copy\<close> calls. This section writes that function over a memory of attribute
  arrays, so that the list model (the child's attributes are the parent's followed by
  the new ones, and no existing slice changes) is a theorem about the code and not a
  choice of the model.
\<close>

record astore =
  aarrays :: "addr \<Rightarrow> Attr list"
  alim :: addr

definition zeroAttr :: Attr where
  "zeroAttr = Attr '''' (AnyValue ''<nil>'')"

definition aelems :: "astore \<Rightarrow> slice \<Rightarrow> Attr list" where
  "aelems st s = take (slen s) (aarrays st (sbase s))"

definition make_attrs :: "nat \<Rightarrow> astore \<Rightarrow> slice \<times> astore" where
  "make_attrs n st =
     (\<lparr>sbase = alim st, slen = n, scap = n\<rparr>,
      st\<lparr>aarrays := (aarrays st)(alim st := replicate n zeroAttr), alim := alim st + 1\<rparr>)"

text \<open>
  \<^verbatim>\<open>copy(dst[off:], src)\<close>: as many elements as both sides have, stored into the
  array of \<open>dst\<close> from index \<open>off\<close>.
\<close>

definition copy_at :: "slice \<Rightarrow> nat \<Rightarrow> Attr list \<Rightarrow> astore \<Rightarrow> astore" where
  "copy_at dst off src st =
     (let n = min (length src) (slen dst - off);
          arr = aarrays st (sbase dst)
      in st\<lparr>aarrays := (aarrays st)(sbase dst := take off arr @ take n src @ drop (off + n) arr)\<rparr>)"

definition WithAttrs_mem :: "slice \<Rightarrow> Attr list \<Rightarrow> astore \<Rightarrow> slice \<times> astore" where
  "WithAttrs_mem hattrs as st =
     (let (newAttrs, st1) = make_attrs (slen hattrs + length as) st;
          st2 = copy_at newAttrs 0 (aelems st1 hattrs) st1;
          st3 = copy_at newAttrs (slen hattrs) as st2
      in (newAttrs, st3))"

section \<open>Notions the statements use\<close>

subsection \<open>Chains of derivations\<close>

text \<open>
  A call of one of the three context operations, and its application to a logger of each
  backend; a chain of such calls from a base logger is a list of them.
\<close>

datatype deriv = DWith string any | DWithError string | DWithGroup string

fun SlogLogger_apply :: "SlogLogger \<Rightarrow> deriv \<Rightarrow> panic + SlogLogger" where
  "SlogLogger_apply l (DWith k v) = SlogLogger_With l k v"
| "SlogLogger_apply l (DWithError e) = SlogLogger_WithError l e"
| "SlogLogger_apply l (DWithGroup g) = SlogLogger_WithGroup l g"

fun SlogLogger_derive :: "SlogLogger \<Rightarrow> deriv list \<Rightarrow> panic + SlogLogger" where
  "SlogLogger_derive l [] = Inr l"
| "SlogLogger_derive l (d # ds) =
     (case SlogLogger_apply l d of Inl p \<Rightarrow> Inl p | Inr l' \<Rightarrow> SlogLogger_derive l' ds)"

fun ZerologLogger_apply :: "ZerologLogger \<Rightarrow> deriv \<Rightarrow> ZerologLogger" where
  "ZerologLogger_apply l (DWith k v) = ZerologLogger_With l k v"
| "ZerologLogger_apply l (DWithError e) = ZerologLogger_WithError l e"
| "ZerologLogger_apply l (DWithGroup g) = ZerologLogger_WithGroup l g"

definition ZerologLogger_derive :: "ZerologLogger \<Rightarrow> deriv list \<Rightarrow> ZerologLogger" where
  "ZerologLogger_derive l ds = foldl ZerologLogger_apply l ds"

fun NullLogger_apply :: "NullLogger \<Rightarrow> deriv \<Rightarrow> NullLogger" where
  "NullLogger_apply n (DWith k v) = NullLogger_With n k v"
| "NullLogger_apply n (DWithError e) = NullLogger_WithError n e"
| "NullLogger_apply n (DWithGroup g) = NullLogger_WithGroup n g"

definition NullLogger_derive :: "NullLogger \<Rightarrow> deriv list \<Rightarrow> NullLogger" where
  "NullLogger_derive n ds = foldl NullLogger_apply n ds"

fun MockLogger_apply :: "addr \<Rightarrow> deriv \<Rightarrow> heap \<Rightarrow> addr \<times> heap" where
  "MockLogger_apply m (DWith k v) h = MockLogger_With m k v h"
| "MockLogger_apply m (DWithError e) h = MockLogger_WithError m e h"
| "MockLogger_apply m (DWithGroup g) h = MockLogger_WithGroup m g h"

text \<open>
  For the capturing backend a sequence of calls names the receiver of each call by its
  address, which may be the base logger or any logger an earlier call returned.
\<close>

fun MockLogger_calls :: "(addr \<times> deriv) list \<Rightarrow> heap \<Rightarrow> heap" where
  "MockLogger_calls [] h = h"
| "MockLogger_calls ((m, d) # cs) h = MockLogger_calls cs (snd (MockLogger_apply m d h))"

text \<open>
  The shape every memory reached from \<open>empty_heap\<close> by the operations of the capturing
  backend has: what a logger object refers to has been allocated, and a slice fits its
  backing array.
\<close>

definition heap_ok :: "heap \<Rightarrow> bool" where
  "heap_ok h =
     (\<forall>a. mattrs (hobjs h a) < hlim h \<and>
          sbase (Entries (hobjs h a)) < hlim h \<and>
          slen (Entries (hobjs h a)) \<le> scap (Entries (hobjs h a)) \<and>
          length (harrays h (sbase (Entries (hobjs h a)))) = scap (Entries (hobjs h a)))"

text \<open>The attributes the slog handler of a logger has bound.\<close>

fun Handler_attrs :: "Handler \<Rightarrow> Attr list" where
  "Handler_attrs (Console h) = attrs h"
| "Handler_attrs (JSON h) = jattrs (handler h)"

text \<open>The attribute one derivation binds on the slog backend with group field \<open>gfn\<close>.\<close>

fun deriv_attr :: "string \<Rightarrow> deriv \<Rightarrow> Attr" where
  "deriv_attr gfn (DWith k v) = Attr k (AnyValue_of v)"
| "deriv_attr gfn (DWithError e) = Attr ''error'' (AnyValue e)"
| "deriv_attr gfn (DWithGroup g) = Attr gfn (StringValue g)"

subsection \<open>The slog logger of a configuration\<close>

text \<open>The level a configuration of the slog backend sets as its minimum.\<close>

definition configured_level :: "Config \<Rightarrow> int" where
  "configured_level cfg =
     logslog_parseLevel (if cfgLevel cfg = '''' then ''info'' else cfgLevel cfg)"

text \<open>The group field's name and the handler options a configuration gives.\<close>

definition configured_field :: "Config \<Rightarrow> string" where
  "configured_field cfg = (if cfgGroupFieldName cfg = '''' then ''_group'' else cfgGroupFieldName cfg)"

definition configured_options :: "Config \<Rightarrow> HandlerOptions" where
  "configured_options cfg =
     \<lparr>optLevel = Some (configured_level cfg), optReplaceAttr = Some New_ReplaceAttr\<rparr>"

text \<open>
  The level of a record as the JSON handler of \<^verbatim>\<open>New\<close> encodes it: the names of the
  two custom levels as strings, every other level as it is.
\<close>

definition encoded_level :: "int \<Rightarrow> Attr" where
  "encoded_level L =
     Attr ''level'' (if L = LevelTrace then StringValue ''TRACE''
                     else if L = LevelFatal then StringValue ''FATAL''
                     else LevelValue L)"


subsection \<open>Effects\<close>

fun is_write :: "effect \<Rightarrow> bool" where
  "is_write (Write bs) = True"
| "is_write (WriteJSON t as) = True"
| "is_write (WriteEvent lv fs msg) = True"
| "is_write (Exit st) = False"

subsection \<open>Well-formed pairs of a variadic argument list\<close>


subsection \<open>Flattening a nested attribute\<close>

text \<open>
  The leaves of an attribute below a path of enclosing group names: each value that is
  not a group, with the names of the groups around it followed by its own key.
\<close>

fun leaves :: "string list \<Rightarrow> Attr \<Rightarrow> (string list \<times> Value) list"
  and leaves_list :: "string list \<Rightarrow> Attr list \<Rightarrow> (string list \<times> Value) list" where
  "leaves path (Attr k (GroupValue gas)) = leaves_list (path @ [k]) gas"
| "leaves path (Attr k v) = [(path @ [k], v)]"
| "leaves_list path [] = []"
| "leaves_list path (a # as) = leaves path a @ leaves_list path as"

fun is_group :: "Value \<Rightarrow> bool" where
  "is_group (GroupValue gas) = True"
| "is_group v = False"

text \<open>One printed pair: a blank, the dot-joined path in colour, \<^verbatim>\<open>=\<close>, the value.\<close>

definition render_leaf :: "string list \<times> Value \<Rightarrow> string" where
  "render_leaf pv = '' '' @ esc ''36'' @ Join (fst pv) ''.'' @ esc ''0'' @ ''='' @ Value_String (snd pv)"

subsection \<open>The group a line shows\<close>

text \<open>The text of the first attribute of a list whose key is the group field, if any.\<close>

definition first_match :: "string \<Rightarrow> Attr list \<Rightarrow> string option" where
  "first_match gfn as = map_option (\<lambda>a. Value_String (Val a)) (find (\<lambda>a. Key a = gfn) as)"

text \<open>
  The group of a line: the first handler-level match when there is one with a non-empty
  text; otherwise the first call-time match; the empty string when neither exists.
\<close>

definition shown_group :: "string \<Rightarrow> Attr list \<Rightarrow> Attr list \<Rightarrow> string" where
  "shown_group gfn hattrs rattrs =
     (case first_match gfn hattrs of
        Some g \<Rightarrow> if g \<noteq> '''' then g
                  else (case first_match gfn rattrs of Some g' \<Rightarrow> g' | None \<Rightarrow> '''')
      | None \<Rightarrow> (case first_match gfn rattrs of Some g' \<Rightarrow> g' | None \<Rightarrow> ''''))"

text \<open>The start of every line: the time and the level code, each in its colour.\<close>

definition line_head :: "string \<Rightarrow> int \<Rightarrow> string" where
  "line_head t level =
     esc ''90'' @ t @ esc ''0'' @ '' '' @ getLevelColor level @ getLevelString level @ esc ''0'' @ '' ''"

text \<open>The bracketed group: nothing for the empty name.\<close>

definition bracket :: "string \<Rightarrow> string" where
  "bracket g = (if g = '''' then '''' else esc ''36'' @ ''['' @ g @ '']'' @ esc ''0'' @ '' '')"

text \<open>Whether a derivation binds an attribute under the key \<open>gfn\<close> on the slog backend.\<close>

definition binds_key :: "string \<Rightarrow> deriv \<Rightarrow> bool" where
  "binds_key gfn d = (Key (deriv_attr gfn d) = gfn)"

text \<open>The field one derivation binds on the zerolog backend.\<close>

fun deriv_field :: "deriv \<Rightarrow> string \<times> any" where
  "deriv_field (DWith k v) = (k, v)"
| "deriv_field (DWithError e) = (''error'', AErr e)"
| "deriv_field (DWithGroup g) = (''group'', AStr g)"

subsection \<open>The text of a coloured line\<close>

text \<open>
  What a terminal shows of a line: the bytes without the colour escapes, each of which
  runs from the escape character to the next \<^verbatim>\<open>m\<close>. The flag tells whether the
  scan is inside an escape.
\<close>

fun plain_aux :: "bool \<Rightarrow> string \<Rightarrow> string" where
  "plain_aux inside [] = []"
| "plain_aux inside (c # cs) =
     (if inside then (if c = CHR ''m'' then plain_aux False cs else plain_aux True cs)
      else if c = CHR 0x1B then plain_aux True cs
      else c # plain_aux False cs)"

definition plain_text :: "string \<Rightarrow> string" where
  "plain_text s = plain_aux False s"

section \<open>Facts shared by the proofs\<close>

lemmas level_defs =
  LevelTrace_def LevelDebug_def LevelInfo_def LevelWarn_def LevelError_def LevelFatal_def

lemma digits_8080: "digits 8080 = ''8080''"
  by (simp add: digits.simps digit_char_def)

lemma parse_info: "logslog_parseLevel ''info'' = LevelInfo"
  by (simp add: logslog_parseLevel_def lower_char_def)

section \<open>The console line of the round-trip scenario\<close>

lemma plain_no_escape:
  "CHR 0x1B \<notin> set xs \<Longrightarrow> plain_aux False (xs @ ys) = xs @ plain_aux False ys"
  by (induction xs) auto

text \<open>
  Claim C5. With level \<^verbatim>\<open>info\<close> and format \<^verbatim>\<open>console\<close> (the group field left
  at its default), \<^verbatim>\<open>WithGroup("svc")\<close> returns a logger, and
  \<^verbatim>\<open>Info("server started", "port", 8080)\<close> on that logger returns and adds
  exactly one effect, a single \<^verbatim>\<open>Write\<close>, whose
  bytes are, in this order: the timestamp, \<^verbatim>\<open>INF\<close>, \<^verbatim>\<open>[svc]\<close>, the message
  and \<^verbatim>\<open>port=8080\<close>, then the newline, each in the fixed colour escapes of the
  line format and separated by single blanks. This holds whatever the time \<open>now\<close> and
  whatever was written before. For a timestamp without an escape character, the text of
  the line, colour escapes aside, is the timestamp followed by
  \<^verbatim>\<open> INF [svc] server started port=8080\<close> and the newline, and nothing else.
\<close>

theorem console_round_trip:
  "and_then
     (SlogLogger_WithGroup
        (logslog_New \<lparr>cfgLevel = ''info'', cfgFormat = ''console'', cfgGroupFieldName = ''''\<rparr>) ''svc'')
     (\<lambda>l. SlogLogger_Info l now ''server started'' [AStr ''port'', AInt 8080] w)
   = Inr (w @ [Write (esc ''90'' @ now @ esc ''0'' @ '' '' @ esc ''32'' @ ''INF'' @ esc ''0'' @ '' '' @
                 esc ''36'' @ ''[svc]'' @ esc ''0'' @ '' '' @ ''server started'' @
                 '' '' @ esc ''36'' @ ''port'' @ esc ''0'' @ ''=8080'' @ [CHR 0x0A])])
   \<and> (CHR 0x1B \<notin> set now \<longrightarrow>
        plain_text (esc ''90'' @ now @ esc ''0'' @ '' '' @ esc ''32'' @ ''INF'' @ esc ''0'' @ '' '' @
                 esc ''36'' @ ''[svc]'' @ esc ''0'' @ '' '' @ ''server started'' @
                 '' '' @ esc ''36'' @ ''port'' @ esc ''0'' @ ''=8080'' @ [CHR 0x0A])
        = now @ '' INF [svc] server started port=8080'' @ [CHR 0x0A])"
proof (intro conjI impI)
  show "and_then
     (SlogLogger_WithGroup
        (logslog_New \<lparr>cfgLevel = ''info'', cfgFormat = ''console'', cfgGroupFieldName = ''''\<rparr>) ''svc'')
     (\<lambda>l. SlogLogger_Info l now ''server started'' [AStr ''port'', AInt 8080] w)
   = Inr (w @ [Write (esc ''90'' @ now @ esc ''0'' @ '' '' @ esc ''32'' @ ''INF'' @ esc ''0'' @ '' '' @
                 esc ''36'' @ ''[svc]'' @ esc ''0'' @ '' '' @ ''server started'' @
                 '' '' @ esc ''36'' @ ''port'' @ esc ''0'' @ ''=8080'' @ [CHR 0x0A])])"
    by (simp add: and_then_def logslog_New_def SlogLogger_Info_def SlogLogger_WithGroup_def
        SlogLogger_log_def Logger_Log_def Logger_With_def NewConsoleHandler_def
        ConsoleHandler_WithAttrs_def ConsoleHandler_Enabled_def parse_info
        ConsoleHandler_Handle_def Handle_line_def Record_Add_def isEmptyGroup_def
        getLevelColor_def getLevelString_def level_defs FormatInt_def digits_8080 Let_def)
next
  assume "CHR 0x1B \<notin> set now"
  then show "plain_text (esc ''90'' @ now @ esc ''0'' @ '' '' @ esc ''32'' @ ''INF'' @ esc ''0'' @ '' '' @
                 esc ''36'' @ ''[svc]'' @ esc ''0'' @ '' '' @ ''server started'' @
                 '' '' @ esc ''36'' @ ''port'' @ esc ''0'' @ ''=8080'' @ [CHR 0x0A])
        = now @ '' INF [svc] server started port=8080'' @ [CHR 0x0A]"
    by (simp add: plain_text_def esc_def plain_no_escape)
qed

text \<open>The theorem at a sample timestamp, with nothing written before.\<close>

theorem console_round_trip_witness:
  "CHR 0x1B \<notin> set ''01 Jan 26 10:00 UTC''
   \<and> and_then
       (SlogLogger_WithGroup
          (logslog_New \<lparr>cfgLevel = ''info'', cfgFormat = ''console'', cfgGroupFieldName = ''''\<rparr>) ''svc'')
       (\<lambda>l. SlogLogger_Info l ''01 Jan 26 10:00 UTC'' ''server started'' [AStr ''port'', AInt 8080] [])
     = Inr [Write (esc ''90'' @ ''01 Jan 26 10:00 UTC'' @ esc ''0'' @ '' '' @ esc ''32'' @ ''INF'' @ esc ''0'' @ '' '' @
               esc ''36'' @ ''[svc]'' @ esc ''0'' @ '' '' @ ''server started'' @
               '' '' @ esc ''36'' @ ''port'' @ esc ''0'' @ ''=8080'' @ [CHR 0x0A])]
   \<and> plain_text (esc ''90'' @ ''01 Jan 26 10:00 UTC'' @ esc ''0'' @ '' '' @ esc ''32'' @ ''INF'' @ esc ''0'' @ '' '' @
               esc ''36'' @ ''[svc]'' @ esc ''0'' @ '' '' @ ''server started'' @
               '' '' @ esc ''36'' @ ''port'' @ esc ''0'' @ ''=8080'' @ [CHR 0x0A])
     = ''01 Jan 26 10:00 UTC INF [svc] server started port=8080'' @ [CHR 0x0A]"
proof -
  have ne: "CHR 0x1B \<notin> set ''01 Jan 26 10:00 UTC''"
    by simp
  show ?thesis
    using console_round_trip [of "''01 Jan 26 10:00 UTC''" "[]"] ne
    by simp
qed

section \<open>Flattening of nested groups\<close>

lemma Join_snoc: "gs \<noteq> [] \<Longrightarrow> Join (gs @ [k]) sep = Join gs sep @ sep @ k"
  by (induction gs sep rule: Join.induct) auto

lemma key_path: "(if length gs > 0 then Join gs ''.'' @ ''.'' @ k else k) = Join (gs @ [k]) ''.''"
proof (cases "gs = []")
  case True
  then show ?thesis by simp
next
  case False
  then show ?thesis by (simp add: Join_snoc)
qed

lemma appendAttr_leaves:
  "appendAttr buf a gs = buf @ concat (map render_leaf (leaves gs a))"
  "appendAttrs buf as gs = buf @ concat (map render_leaf (leaves_list gs as))"
proof (induction buf a gs and buf as gs rule: appendAttr_appendAttrs.induct)
qed (simp_all add: render_leaf_def key_path [simplified] Let_def del: Join.simps)

lemma leaves_not_group:
  "list_all (\<lambda>pv. \<not> is_group (snd pv)) (leaves gs a)"
  "list_all (\<lambda>pv. \<not> is_group (snd pv)) (leaves_list gs as)"
  by (induction gs a and gs as rule: leaves_leaves_list.induct) simp_all

lemma scanGroup_first_match:
  "scanGroup gfn as d = (case first_match gfn as of Some g \<Rightarrow> g | None \<Rightarrow> d)"
  by (induction as) (simp_all add: first_match_def)

lemma appendAttr_buf: "appendAttr buf a gs = buf @ appendAttr [] a gs"
  by (simp add: appendAttr_leaves(1))

lemma appendOthers_buf: "appendOthers buf gfn as gs = buf @ appendOthers [] gfn as gs"
proof (induction as arbitrary: buf)
  case Nil
  then show ?case by simp
next
  case (Cons a as)
  show ?case
  proof (cases "Key a = gfn")
    case True
    then show ?thesis using Cons.IH [of buf] by simp
  next
    case False
    have "appendOthers buf gfn (a # as) gs = appendOthers (appendAttr buf a gs) gfn as gs"
      using False by simp
    also have "\<dots> = appendAttr buf a gs @ appendOthers [] gfn as gs"
      by (rule Cons.IH)
    also have "\<dots> = buf @ appendAttr [] a gs @ appendOthers [] gfn as gs"
      using appendAttr_buf [of buf a gs] by simp
    also have "appendAttr [] a gs @ appendOthers [] gfn as gs = appendOthers (appendAttr [] a gs) gfn as gs"
      by (rule Cons.IH [symmetric])
    finally show ?thesis using False by simp
  qed
qed

lemma Handle_line_shape:
  "Handle_line h r =
     line_head (rTime r) (rLevel r)
     @ bracket (shown_group (groupFieldName h) (attrs h) (rAttrs r))
     @ rMessage r
     @ appendOthers [] (groupFieldName h) (attrs h) (groups h)
     @ appendOthers [] (groupFieldName h) (rAttrs r) (groups h)
     @ [CHR 0x0A]"
proof -
  let ?g = "shown_group (groupFieldName h) (attrs h) (rAttrs r)"
  let ?g1 = "scanGroup (groupFieldName h) (attrs h) ''''"
  have g: "(if ?g1 = '''' then scanGroup (groupFieldName h) (rAttrs r) ?g1 else ?g1) = ?g"
    by (simp add: scanGroup_first_match shown_group_def split: option.splits)
  have "Handle_line h r =
      appendOthers
        (appendOthers
          ((if ?g \<noteq> '''' then line_head (rTime r) (rLevel r) @ esc ''36'' @ ''['' @ ?g @ '']'' @ esc ''0'' @ '' ''
            else line_head (rTime r) (rLevel r)) @ rMessage r)
          (groupFieldName h) (attrs h) (groups h))
        (groupFieldName h) (rAttrs r) (groups h) @ [CHR 0x0A]"
    unfolding Handle_line_def Let_def g line_head_def by simp
  also have "\<dots> =
      ((if ?g \<noteq> '''' then line_head (rTime r) (rLevel r) @ esc ''36'' @ ''['' @ ?g @ '']'' @ esc ''0'' @ '' ''
        else line_head (rTime r) (rLevel r)) @ rMessage r)
      @ appendOthers [] (groupFieldName h) (attrs h) (groups h)
      @ appendOthers [] (groupFieldName h) (rAttrs r) (groups h) @ [CHR 0x0A]"
    by (subst appendOthers_buf, subst (2) appendOthers_buf) simp
  also have "(if ?g \<noteq> '''' then line_head (rTime r) (rLevel r) @ esc ''36'' @ ''['' @ ?g @ '']'' @ esc ''0'' @ '' ''
        else line_head (rTime r) (rLevel r)) = line_head (rTime r) (rLevel r) @ bracket ?g"
    by (simp add: bracket_def)
  finally show ?thesis by simp
qed

lemma appendOthers_leaves:
  "appendOthers buf gfn as gs =
     buf @ concat (map render_leaf (leaves_list gs (filter (\<lambda>a. Key a \<noteq> gfn) as)))"
  by (induction as arbitrary: buf) (simp_all add: appendAttr_leaves(1))

text \<open>
  Claim C7, as the code has it. What \<^verbatim>\<open>appendAttr\<close> adds to the buffer for an
  attribute is exactly one printed pair per leaf of the attribute, in order: the key of
  each pair is the dot-joined path of the enclosing group names (those of the handler
  first) followed by the leaf's own key, and no leaf is itself a group, so an attribute
  printed through \<^verbatim>\<open>appendAttr\<close> is never printed as one pair when its value is a
  group. The renderer prints through \<^verbatim>\<open>appendAttr\<close> every handler-level and
  call-time attribute whose key is not the group field's, and those only: the pairs of a
  line are the leaves of these attributes. An attribute under the group field's key is
  never flattened; the one the group lookup finds is shown in the bracket through the
  text of its value, which for a group value is the bracketed list of its members, each
  as \<^verbatim>\<open>key=value\<close>. A value two groups deep under another key comes out as
  \<^verbatim>\<open>outer.inner.key=value\<close>.
\<close>

theorem nested_groups_flattened:
  "appendAttr buf a gs = buf @ concat (map render_leaf (leaves gs a))
   \<and> list_all (\<lambda>pv. \<not> is_group (snd pv)) (leaves gs a)
   \<and> Handle_line h r =
       line_head (rTime r) (rLevel r)
       @ bracket (shown_group (groupFieldName h) (attrs h) (rAttrs r))
       @ rMessage r
       @ concat (map render_leaf
           (leaves_list (groups h) (filter (\<lambda>a. Key a \<noteq> groupFieldName h) (attrs h))))
       @ concat (map render_leaf
           (leaves_list (groups h) (filter (\<lambda>a. Key a \<noteq> groupFieldName h) (rAttrs r))))
       @ [CHR 0x0A]
   \<and> first_match gfn (Attr gfn (GroupValue gas) # as) =
       Some (''['' @ Join (map Attr_String gas) '' '' @ '']'')
   \<and> appendAttr buf (Attr ''outer'' (GroupValue [Attr ''inner'' (GroupValue [Attr ''key'' (StringValue ''value'')])])) []
       = buf @ '' '' @ esc ''36'' @ ''outer.inner.key'' @ esc ''0'' @ ''=value''"
proof -
  have line: "Handle_line h r =
       line_head (rTime r) (rLevel r)
       @ bracket (shown_group (groupFieldName h) (attrs h) (rAttrs r))
       @ rMessage r
       @ concat (map render_leaf
           (leaves_list (groups h) (filter (\<lambda>a. Key a \<noteq> groupFieldName h) (attrs h))))
       @ concat (map render_leaf
           (leaves_list (groups h) (filter (\<lambda>a. Key a \<noteq> groupFieldName h) (rAttrs r))))
       @ [CHR 0x0A]"
    by (simp add: Handle_line_shape appendOthers_leaves)
  have fm: "first_match gfn (Attr gfn (GroupValue gas) # as) =
       Some (''['' @ Join (map Attr_String gas) '' '' @ '']'')"
    by (simp add: first_match_def)
  show ?thesis
    using line fm
    by (simp add: appendAttr_leaves(1) leaves_not_group(1) render_leaf_def)
qed

text \<open>
  Claim C7 as stated fails: a call-time attribute under the group field's key whose
  value is the group \<^verbatim>\<open>a=b\<close> is printed directly, as the bracketed text
  \<^verbatim>\<open>[[a=b]]\<close>, and no pair \<^verbatim>\<open>_group.a=b\<close> is printed for its member.
\<close>

theorem group_field_group_counterexample:
  "SlogLogger_Info (logslog_New \<lparr>cfgLevel = ''info'', cfgFormat = ''console'', cfgGroupFieldName = ''''\<rparr>)
     ''01 Jan 26 10:00 UTC'' ''m''
     [AStr ''_group'', AValue (GroupValue [Attr ''a'' (StringValue ''b'')])] []
   = Inr [Write (esc ''90'' @ ''01 Jan 26 10:00 UTC'' @ esc ''0'' @ '' '' @ esc ''32'' @ ''INF'' @ esc ''0'' @ '' '' @
                 esc ''36'' @ ''[[a=b]]'' @ esc ''0'' @ '' '' @ ''m'' @ [CHR 0x0A])]"
  by (simp add: logslog_New_def SlogLogger_Info_def SlogLogger_log_def
      Logger_Log_def NewConsoleHandler_def ConsoleHandler_Enabled_def parse_info
      ConsoleHandler_Handle_def Handle_line_def Record_Add_def isEmptyGroup_def
      getLevelColor_def getLevelString_def level_defs Let_def)

section \<open>Loggers made by \<^verbatim>\<open>New\<close> and chains of derivations\<close>

lemma New_console:
  assumes "cfgFormat cfg \<noteq> ''json''"
  shows "logslog_New cfg =
           \<lparr>logger = Console \<lparr>opts = configured_options cfg, attrs = [], groups = [],
                               groupFieldName = configured_field cfg\<rparr>,
            lGroupFieldName = configured_field cfg\<rparr>"
  using assms
  by (simp add: logslog_New_def Let_def NewConsoleHandler_def configured_level_def
      configured_field_def configured_options_def)

lemma New_json:
  assumes "cfgFormat cfg = ''json''"
  shows "logslog_New cfg =
           \<lparr>logger = JSON \<lparr>handler = \<lparr>jopts = configured_options cfg, jattrs = []\<rparr>\<rparr>,
            lGroupFieldName = configured_field cfg\<rparr>"
  using assms
  by (simp add: logslog_New_def Let_def NewJSONHandler_def configured_level_def
      configured_field_def configured_options_def)

lemma apply_console:
  "SlogLogger_apply \<lparr>logger = Console h, lGroupFieldName = g\<rparr> d =
     Inr \<lparr>logger = Console (h\<lparr>attrs := attrs h @ [deriv_attr g d]\<rparr>), lGroupFieldName = g\<rparr>"
  by (cases d)
     (simp_all add: SlogLogger_With_def SlogLogger_WithError_def SlogLogger_WithGroup_def
        Logger_With_def ConsoleHandler_WithAttrs_def)

lemma derive_console:
  "SlogLogger_derive \<lparr>logger = Console h, lGroupFieldName = g\<rparr> ds =
     Inr \<lparr>logger = Console (h\<lparr>attrs := attrs h @ map (deriv_attr g) ds\<rparr>), lGroupFieldName = g\<rparr>"
proof (induction ds arbitrary: h)
  case Nil
  show ?case by simp
next
  case (Cons d ds)
  show ?case
    using Cons.IH [of "h\<lparr>attrs := attrs h @ [deriv_attr g d]\<rparr>"]
    by (simp add: apply_console)
qed

lemma chain_console:
  assumes "cfgFormat cfg \<noteq> ''json''"
  shows "SlogLogger_derive (logslog_New cfg) ds =
           Inr \<lparr>logger = Console \<lparr>opts = configured_options cfg,
                                    attrs = map (deriv_attr (configured_field cfg)) ds,
                                    groups = [], groupFieldName = configured_field cfg\<rparr>,
                lGroupFieldName = configured_field cfg\<rparr>"
  by (simp add: New_console [OF assms] derive_console)

text \<open>
  On the JSON handler a derivation formats its attribute at once; what is bound after a
  chain is what formatting the chain's attributes in one go gives.
\<close>

lemma appendAttrs_one:
  "handleState_appendAttrs rep gs [a] = handleState_appendAttr rep gs a"
  by (cases "handleState_appendAttr rep gs a") simp_all

lemma appendAttr_empty_group:
  assumes "isEmptyGroup (Val a)"
  shows "handleState_appendAttr rep gs a = Inr []"
proof -
  obtain k where "a = Attr k (GroupValue [])"
    using assms by (cases a; cases "Val a") (auto simp: isEmptyGroup_def)
  then show ?thesis by simp
qed

lemma WithAttrs_one:
  "slog_JSONHandler_WithAttrs h [a] =
     (case handleState_appendAttr (optReplaceAttr (jopts h)) [] a of
        Inl p \<Rightarrow> Inl p
      | Inr out \<Rightarrow> Inr (h\<lparr>jattrs := jattrs h @ out\<rparr>))"
proof (cases "isEmptyGroup (Val a)")
  case True
  then show ?thesis
    by (simp add: slog_JSONHandler_WithAttrs_def countEmptyGroups_def appendAttr_empty_group)
next
  case False
  then show ?thesis
    by (cases "handleState_appendAttr (optReplaceAttr (jopts h)) [] a")
       (simp_all add: slog_JSONHandler_WithAttrs_def countEmptyGroups_def)
qed

lemma apply_json:
  "SlogLogger_apply \<lparr>logger = JSON \<lparr>handler = h\<rparr>, lGroupFieldName = g\<rparr> d =
     (case handleState_appendAttr (optReplaceAttr (jopts h)) [] (deriv_attr g d) of
        Inl p \<Rightarrow> Inl p
      | Inr out \<Rightarrow>
          Inr \<lparr>logger = JSON \<lparr>handler = h\<lparr>jattrs := jattrs h @ out\<rparr>\<rparr>, lGroupFieldName = g\<rparr>)"
  by (cases d)
     (simp_all add: SlogLogger_With_def SlogLogger_WithError_def SlogLogger_WithGroup_def
        Logger_With_def JSONHandler_WithAttrs_def WithAttrs_one split: sum.splits)

lemma derive_json:
  "SlogLogger_derive \<lparr>logger = JSON \<lparr>handler = h\<rparr>, lGroupFieldName = g\<rparr> ds =
     (case handleState_appendAttrs (optReplaceAttr (jopts h)) [] (map (deriv_attr g) ds) of
        Inl p \<Rightarrow> Inl p
      | Inr out \<Rightarrow>
          Inr \<lparr>logger = JSON \<lparr>handler = h\<lparr>jattrs := jattrs h @ out\<rparr>\<rparr>, lGroupFieldName = g\<rparr>)"
proof (induction ds arbitrary: h)
  case Nil
  show ?case by simp
next
  case (Cons d ds)
  show ?case
  proof (cases "handleState_appendAttr (optReplaceAttr (jopts h)) [] (deriv_attr g d)")
    case (Inl p)
    then show ?thesis by (simp add: apply_json)
  next
    case (Inr out)
    show ?thesis
      using Cons.IH [of "h\<lparr>jattrs := jattrs h @ out\<rparr>"] Inr
      by (simp add: apply_json split: sum.splits)
  qed
qed

lemma chain_json:
  assumes "cfgFormat cfg = ''json''"
  shows "SlogLogger_derive (logslog_New cfg) ds =
           (case handleState_appendAttrs (Some New_ReplaceAttr) []
                   (map (deriv_attr (configured_field cfg)) ds) of
              Inl p \<Rightarrow> Inl p
            | Inr out \<Rightarrow>
                Inr \<lparr>logger = JSON \<lparr>handler = \<lparr>jopts = configured_options cfg, jattrs = out\<rparr>\<rparr>,
                     lGroupFieldName = configured_field cfg\<rparr>)"
  by (simp add: New_json [OF assms] derive_json configured_options_def split: sum.splits)




text \<open>An emission, on each of the two handlers.\<close>

lemma log_console:
  "SlogLogger_log \<lparr>logger = Console h, lGroupFieldName = g\<rparr> now L msg kvs w =
     Inr (if ConsoleHandler_Enabled h L
          then w @ [Write (Handle_line h \<lparr>rTime = now, rLevel = L, rMessage = msg, rAttrs = Record_Add kvs\<rparr>)]
          else w)"
  by (simp add: SlogLogger_log_def Logger_Log_def ConsoleHandler_Handle_def)

lemma level_encoded:
  "handleState_appendAttr (Some New_ReplaceAttr) [] (Attr LevelKey (LevelValue L)) = Inr [encoded_level L]"
  by (simp add: New_ReplaceAttr_def LevelKey_def encoded_level_def)

lemma message_encoded:
  "handleState_appendAttr (Some New_ReplaceAttr) [] (Attr MessageKey (StringValue msg)) =
     Inr [Attr ''msg'' (StringValue msg)]"
  by (simp add: New_ReplaceAttr_def LevelKey_def MessageKey_def)

lemma log_json:
  "SlogLogger_log
     \<lparr>logger = JSON \<lparr>handler = \<lparr>jopts = configured_options cfg, jattrs = bound\<rparr>\<rparr>, lGroupFieldName = g\<rparr>
     now L msg kvs w =
     (if configured_level cfg \<le> L
      then (case handleState_appendAttrs (Some New_ReplaceAttr) [] (Record_Add kvs) of
              Inl p \<Rightarrow> Inl p
            | Inr out \<Rightarrow>
                Inr (w @ [WriteJSON now (encoded_level L # Attr ''msg'' (StringValue msg) # bound @ out)]))
      else Inr w)"
  by (simp add: SlogLogger_log_def Logger_Log_def JSONHandler_Enabled_def JSONHandler_Handle_def
      slog_JSONHandler_Enabled_def slog_JSONHandler_Handle_def configured_options_def
      New_ReplaceAttr_def LevelKey_def MessageKey_def encoded_level_def split: sum.splits)

text \<open>
  An emission through a logger made by \<^verbatim>\<open>New\<close> and a chain of derivations that
  returned.
\<close>

lemma log_chain:
  assumes "SlogLogger_derive (logslog_New cfg) ds = Inr l"
  shows "SlogLogger_log l now L msg kvs w =
     (if configured_level cfg \<le> L
      then (if cfgFormat cfg = ''json''
            then (case handleState_appendAttrs (Some New_ReplaceAttr) [] (Record_Add kvs) of
                    Inl p \<Rightarrow> Inl p
                  | Inr out \<Rightarrow>
                      Inr (w @ [WriteJSON now (encoded_level L # Attr ''msg'' (StringValue msg)
                                                # Handler_attrs (logger l) @ out)]))
            else Inr (w @ [Write (Handle_line
                                    \<lparr>opts = configured_options cfg,
                                       attrs = map (deriv_attr (configured_field cfg)) ds,
                                       groups = [], groupFieldName = configured_field cfg\<rparr>
                                    \<lparr>rTime = now, rLevel = L, rMessage = msg, rAttrs = Record_Add kvs\<rparr>)]))
      else Inr w)"
proof (cases "cfgFormat cfg = ''json''")
  case True
  obtain out where
    l: "l = \<lparr>logger = JSON \<lparr>handler = \<lparr>jopts = configured_options cfg, jattrs = out\<rparr>\<rparr>,
              lGroupFieldName = configured_field cfg\<rparr>"
    using assms chain_json [OF True, of ds]
    by (auto split: sum.splits)
  have ha: "Handler_attrs (logger l) = out"
    by (simp add: l)
  show ?thesis
    unfolding ha unfolding l using True by (simp add: log_json)
next
  case False
  have l: "l = \<lparr>logger = Console \<lparr>opts = configured_options cfg,
                                    attrs = map (deriv_attr (configured_field cfg)) ds,
                                    groups = [], groupFieldName = configured_field cfg\<rparr>,
                lGroupFieldName = configured_field cfg\<rparr>"
    using assms chain_console [OF False, of ds] by simp
  show ?thesis
    unfolding l using False
    by (simp add: log_console ConsoleHandler_Enabled_def configured_options_def)
qed

lemma configured_cases:
  "configured_level cfg \<in> {LevelTrace, LevelDebug, LevelInfo, LevelWarn, LevelError, LevelFatal}"
  by (simp add: configured_level_def logslog_parseLevel_def Let_def)



section \<open>Level filtering on the slog backend\<close>




section \<open>Fatal\<close>

text \<open>
  What \<^verbatim>\<open>Fatal\<close> does on a logger of the slog backend made by \<^verbatim>\<open>New\<close> and any
  chain of derivations that returned. Every configurable minimum is at most the Fatal
  level, so the record is never filtered. On the console format \<^verbatim>\<open>Fatal\<close> adds
  exactly two effects, in this order: the write of the line of this record (its level,
  message and attributes), then the exit with status 1. On the JSON format it adds the
  write of this record's object and then the exit with status 1, unless formatting the
  call's attributes panics; then nothing is written and the exit is not reached. An
  emission of any level that returns has added one write or nothing, so the five other
  emission operations (which are emissions at their levels) add no exit. On the null
  backend \<^verbatim>\<open>Fatal\<close> leaves the effects as they were.
\<close>

lemma fatal_emits_then_exits:
  assumes "SlogLogger_derive (logslog_New cfg) ds = Inr l"
  shows "SlogLogger_Fatal l now msg kvs w =
     (if cfgFormat cfg = ''json''
      then (case handleState_appendAttrs (Some New_ReplaceAttr) [] (Record_Add kvs) of
              Inl p \<Rightarrow> Inl p
            | Inr out \<Rightarrow>
                Inr (w @ [WriteJSON now (Attr ''level'' (StringValue ''FATAL'') # Attr ''msg'' (StringValue msg)
                                          # Handler_attrs (logger l) @ out),
                          Exit 1]))
      else Inr (w @ [Write (Handle_line
                              \<lparr>opts = configured_options cfg,
                                 attrs = map (deriv_attr (configured_field cfg)) ds,
                                 groups = [], groupFieldName = configured_field cfg\<rparr>
                              \<lparr>rTime = now, rLevel = LevelFatal, rMessage = msg, rAttrs = Record_Add kvs\<rparr>),
                     Exit 1]))"
    and "SlogLogger_log l now L msg kvs w = Inr w' \<Longrightarrow> w' = w \<or> (\<exists>ev. is_write ev \<and> w' = w @ [ev])"
    and "SlogLogger_Trace l now msg kvs w = SlogLogger_log l now LevelTrace msg kvs w"
    and "SlogLogger_Debug l now msg kvs w = SlogLogger_log l now LevelDebug msg kvs w"
    and "SlogLogger_Info l now msg kvs w = SlogLogger_log l now LevelInfo msg kvs w"
    and "SlogLogger_Warn l now msg kvs w = SlogLogger_log l now LevelWarn msg kvs w"
    and "SlogLogger_Error l now msg kvs w = SlogLogger_log l now LevelError msg kvs w"
    and "NullLogger_Fatal n msg kvs w = w"
proof -
  have le: "configured_level cfg \<le> LevelFatal"
    using configured_cases [of cfg] by (auto simp: level_defs)
  show "SlogLogger_Fatal l now msg kvs w =
     (if cfgFormat cfg = ''json''
      then (case handleState_appendAttrs (Some New_ReplaceAttr) [] (Record_Add kvs) of
              Inl p \<Rightarrow> Inl p
            | Inr out \<Rightarrow>
                Inr (w @ [WriteJSON now (Attr ''level'' (StringValue ''FATAL'') # Attr ''msg'' (StringValue msg)
                                          # Handler_attrs (logger l) @ out),
                          Exit 1]))
      else Inr (w @ [Write (Handle_line
                              \<lparr>opts = configured_options cfg,
                                 attrs = map (deriv_attr (configured_field cfg)) ds,
                                 groups = [], groupFieldName = configured_field cfg\<rparr>
                              \<lparr>rTime = now, rLevel = LevelFatal, rMessage = msg, rAttrs = Record_Add kvs\<rparr>),
                     Exit 1]))"
    using le
    by (simp add: SlogLogger_Fatal_def log_chain [OF assms] encoded_level_def level_defs
        split: sum.splits)
  show "SlogLogger_log l now L msg kvs w = Inr w' \<Longrightarrow> w' = w \<or> (\<exists>ev. is_write ev \<and> w' = w @ [ev])"
    by (auto simp: log_chain [OF assms] split: if_splits sum.splits)
qed (simp_all add: SlogLogger_Trace_def SlogLogger_Debug_def SlogLogger_Info_def
       SlogLogger_Warn_def SlogLogger_Error_def NullLogger_Fatal_def)

text \<open>
  Claim C8 at the input where the code departs from it. On a logger of the JSON format,
  \<^verbatim>\<open>Fatal("shutting down", "level", "critical")\<close> panics while the record is being
  formatted: nothing is written and \<^verbatim>\<open>os.Exit(1)\<close> is not reached, so the fatal
  message is lost; and \<^verbatim>\<open>Error("disk failure", "level", 3)\<close>, which is not
  \<^verbatim>\<open>Fatal\<close>, panics too, and a panic that is not recovered ends the process. With
  the attribute under another key, \<^verbatim>\<open>Fatal\<close> writes the record, its level encoded
  as \<^verbatim>\<open>FATAL\<close>, and exits with status 1, as the claim has it; and so does the
  first call on the console format, which prints the attribute.
\<close>

theorem fatal_level_key_panics:
  "SlogLogger_Fatal (logslog_New \<lparr>cfgLevel = '''', cfgFormat = ''json'', cfgGroupFieldName = ''''\<rparr>)
     ''01 Jan 26 10:00 UTC'' ''shutting down'' [AStr ''level'', AStr ''critical''] []
     = Inl (TypeAssertionError (StringValue ''critical''))
   \<and> SlogLogger_Error (logslog_New \<lparr>cfgLevel = '''', cfgFormat = ''json'', cfgGroupFieldName = ''''\<rparr>)
     ''01 Jan 26 10:00 UTC'' ''disk failure'' [AStr ''level'', AInt 3] []
     = Inl (TypeAssertionError (Int64Value 3))
   \<and> SlogLogger_Fatal (logslog_New \<lparr>cfgLevel = '''', cfgFormat = ''json'', cfgGroupFieldName = ''''\<rparr>)
     ''01 Jan 26 10:00 UTC'' ''shutting down'' [AStr ''code'', AInt 3] []
     = Inr [WriteJSON ''01 Jan 26 10:00 UTC''
              [Attr ''level'' (StringValue ''FATAL''), Attr ''msg'' (StringValue ''shutting down''),
               Attr ''code'' (Int64Value 3)],
            Exit 1]
   \<and> SlogLogger_Fatal (logslog_New \<lparr>cfgLevel = '''', cfgFormat = ''console'', cfgGroupFieldName = ''''\<rparr>)
     ''01 Jan 26 10:00 UTC'' ''shutting down'' [AStr ''level'', AStr ''critical''] []
     = Inr [Write (esc ''90'' @ ''01 Jan 26 10:00 UTC'' @ esc ''0'' @ '' '' @ esc ''31'' @ ''FTL'' @ esc ''0'' @ '' '' @
                   ''shutting down'' @ '' '' @ esc ''36'' @ ''level'' @ esc ''0'' @ ''=critical'' @ [CHR 0x0A]),
            Exit 1]"
  by (simp add: SlogLogger_Fatal_def SlogLogger_Error_def SlogLogger_log_def Logger_Log_def
      logslog_New_def Let_def NewJSONHandler_def NewConsoleHandler_def JSONHandler_Enabled_def
      JSONHandler_Handle_def slog_JSONHandler_Enabled_def slog_JSONHandler_Handle_def
      ConsoleHandler_Enabled_def ConsoleHandler_Handle_def Handle_line_def parse_info
      Record_Add_def isEmptyGroup_def New_ReplaceAttr_def LevelKey_def MessageKey_def
      getLevelColor_def getLevelString_def level_defs)

section \<open>Malformed key/value arguments\<close>











section \<open>The group of a console line\<close>

text \<open>
  Claim C6, as the code has it. Every line the console renderer produces is the time
  and the level code, then at most one bracketed group, then the message, then the
  handler-level and the call-time attributes other than the group field, then the
  newline. The group is looked for among the handler-level attributes first, where the
  first attribute with the group field's key decides; the call-time attributes are
  searched when there is no such attribute or when its value prints as the empty text,
  and there again the first match decides. A group with a non-empty text \<open>g\<close> is shown
  as \<^verbatim>\<open>[g]\<close> right after the level code and before the message; an empty one is
  not shown.
\<close>

theorem group_lookup:
  "Handle_line h r =
     line_head (rTime r) (rLevel r)
     @ bracket (shown_group (groupFieldName h) (attrs h) (rAttrs r))
     @ rMessage r
     @ appendOthers [] (groupFieldName h) (attrs h) (groups h)
     @ appendOthers [] (groupFieldName h) (rAttrs r) (groups h)
     @ [CHR 0x0A]
   \<and> (first_match (groupFieldName h) (attrs h) = Some g \<and> g \<noteq> '''' \<longrightarrow>
        shown_group (groupFieldName h) (attrs h) (rAttrs r) = g \<and> bracket g = esc ''36'' @ ''['' @ g @ '']'' @ esc ''0'' @ '' '')
   \<and> (first_match (groupFieldName h) (attrs h) = None \<longrightarrow>
        shown_group (groupFieldName h) (attrs h) (rAttrs r) =
          (case first_match (groupFieldName h) (rAttrs r) of Some g' \<Rightarrow> g' | None \<Rightarrow> ''''))
   \<and> (first_match (groupFieldName h) (attrs h) = Some '''' \<longrightarrow>
        shown_group (groupFieldName h) (attrs h) (rAttrs r) =
          (case first_match (groupFieldName h) (rAttrs r) of Some g' \<Rightarrow> g' | None \<Rightarrow> ''''))"
  by (simp add: Handle_line_shape shown_group_def bracket_def)

text \<open>
  The theorem at three handlers with the group field \<^verbatim>\<open>_group\<close>: one that has
  bound the group \<^verbatim>\<open>svc\<close> (the call-time group \<^verbatim>\<open>x\<close> is not looked at), one
  that has bound no group, and one that has bound the empty group (both show the
  call-time group).
\<close>

theorem group_lookup_witness:
  "first_match ''_group'' [Attr ''_group'' (StringValue ''svc'')] = Some ''svc''
   \<and> shown_group ''_group'' [Attr ''_group'' (StringValue ''svc'')] [Attr ''_group'' (StringValue ''x'')] = ''svc''
   \<and> first_match ''_group'' [] = None
   \<and> shown_group ''_group'' [] [Attr ''_group'' (StringValue ''x'')] = ''x''
   \<and> first_match ''_group'' [Attr ''_group'' (StringValue '''')] = Some ''''
   \<and> shown_group ''_group'' [Attr ''_group'' (StringValue '''')] [Attr ''_group'' (StringValue ''x'')] = ''x''"
  using
    group_lookup [of "\<lparr>opts = \<lparr>optLevel = None, optReplaceAttr = None\<rparr>, attrs = [Attr ''_group'' (StringValue ''svc'')], groups = [], groupFieldName = ''_group''\<rparr>"
      "\<lparr>rTime = ''01 Jan 26 10:00 UTC'', rLevel = LevelInfo, rMessage = ''m'', rAttrs = [Attr ''_group'' (StringValue ''x'')]\<rparr>" "''svc''"]
    group_lookup [of "\<lparr>opts = \<lparr>optLevel = None, optReplaceAttr = None\<rparr>, attrs = [], groups = [], groupFieldName = ''_group''\<rparr>"
      "\<lparr>rTime = ''01 Jan 26 10:00 UTC'', rLevel = LevelInfo, rMessage = ''m'', rAttrs = [Attr ''_group'' (StringValue ''x'')]\<rparr>" "''svc''"]
    group_lookup [of "\<lparr>opts = \<lparr>optLevel = None, optReplaceAttr = None\<rparr>, attrs = [Attr ''_group'' (StringValue '''')], groups = [], groupFieldName = ''_group''\<rparr>"
      "\<lparr>rTime = ''01 Jan 26 10:00 UTC'', rLevel = LevelInfo, rMessage = ''m'', rAttrs = [Attr ''_group'' (StringValue ''x'')]\<rparr>" "''svc''"]
  by (simp add: first_match_def)

text \<open>
  Claim C6 as stated fails: on the logger \<^verbatim>\<open>WithGroup("")\<close> returns, the handler has
  an attribute with the group field's key, and yet a call-time attribute with that key
  supplies the group of the line.
\<close>

theorem empty_group_counterexample:
  "SlogLogger_WithGroup
      (logslog_New \<lparr>cfgLevel = ''info'', cfgFormat = ''console'', cfgGroupFieldName = ''''\<rparr>) ''''
     = Inr \<lparr>logger = Console \<lparr>opts = \<lparr>optLevel = Some LevelInfo, optReplaceAttr = Some New_ReplaceAttr\<rparr>,
                                attrs = [Attr ''_group'' (StringValue '''')], groups = [],
                                groupFieldName = ''_group''\<rparr>,
            lGroupFieldName = ''_group''\<rparr>
   \<and> SlogLogger_Info
       \<lparr>logger = Console \<lparr>opts = \<lparr>optLevel = Some LevelInfo, optReplaceAttr = Some New_ReplaceAttr\<rparr>,
                            attrs = [Attr ''_group'' (StringValue '''')], groups = [],
                            groupFieldName = ''_group''\<rparr>,
        lGroupFieldName = ''_group''\<rparr>
       ''01 Jan 26 10:00 UTC'' ''m'' [AStr ''_group'', AStr ''x''] []
     = Inr [Write (esc ''90'' @ ''01 Jan 26 10:00 UTC'' @ esc ''0'' @ '' '' @ esc ''32'' @ ''INF'' @ esc ''0'' @ '' '' @
               esc ''36'' @ ''[x]'' @ esc ''0'' @ '' '' @ ''m'' @ [CHR 0x0A])]"
  by (simp add: logslog_New_def SlogLogger_Info_def SlogLogger_WithGroup_def SlogLogger_log_def
      Logger_Log_def Logger_With_def NewConsoleHandler_def ConsoleHandler_WithAttrs_def
      ConsoleHandler_Enabled_def parse_info ConsoleHandler_Handle_def Handle_line_def
      Record_Add_def isEmptyGroup_def getLevelColor_def getLevelString_def level_defs Let_def)

section \<open>Chains of \<^verbatim>\<open>WithGroup\<close> on the console\<close>

lemma first_match_chain:
  assumes "\<forall>d \<in> set pre. \<not> binds_key gfn d"
  shows "first_match gfn (map (deriv_attr gfn) (pre @ DWithGroup g1 # post)) = Some g1"
  using assms
  by (induction pre) (simp_all add: first_match_def binds_key_def)

lemma appendOthers_filter:
  "appendOthers buf gfn as gs = appendAttrs buf (filter (\<lambda>a. Key a \<noteq> gfn) as) gs"
  by (induction as arbitrary: buf) simp_all

lemma appendAttrs_append:
  "appendAttrs buf (xs @ ys) gs = appendAttrs buf xs gs @ appendAttrs [] ys gs"
proof (induction xs arbitrary: buf)
  case Nil
  show ?case using appendAttr_leaves(2) [of buf ys gs] appendAttr_leaves(2) [of "[]" ys gs] by simp
next
  case (Cons x xs)
  then show ?case by simp
qed

text \<open>
  Claim C9, as the code has it. On the slog backend with the console format, every
  derivation returns and binds one handler-level attribute, in call order, and
  \<^verbatim>\<open>WithGroup(g)\<close> binds the group field's key with the value \<open>g\<close>. For a chain
  whose first binding of that key is \<^verbatim>\<open>WithGroup(g1)\<close> with a non-empty \<open>g1\<close>,
  whatever follows it, an enabled emission returns after writing one line whose
  bracketed group is \<^verbatim>\<open>[g1]\<close> and whose pairs are the bound and the call-time
  attributes without those that have the group field's key: the names of later
  \<^verbatim>\<open>WithGroup\<close> calls are printed nowhere.
\<close>

theorem chained_groups:
  assumes "cfgFormat cfg \<noteq> ''json''"
    and "gfn = (if cfgGroupFieldName cfg = '''' then ''_group'' else cfgGroupFieldName cfg)"
    and "\<forall>d \<in> set pre. \<not> binds_key gfn d"
    and "g1 \<noteq> ''''"
    and "configured_level cfg \<le> L"
  shows "SlogLogger_derive (logslog_New cfg) (pre @ DWithGroup g1 # post) =
           Inr \<lparr>logger = Console \<lparr>opts = configured_options cfg,
                                    attrs = map (deriv_attr gfn) (pre @ DWithGroup g1 # post),
                                    groups = [], groupFieldName = gfn\<rparr>,
                lGroupFieldName = gfn\<rparr>
         \<and> and_then (SlogLogger_derive (logslog_New cfg) (pre @ DWithGroup g1 # post))
             (\<lambda>l. SlogLogger_log l now L msg kvs w) =
           Inr (w @ [Write (line_head now L @ esc ''36'' @ ''['' @ g1 @ '']'' @ esc ''0'' @ '' '' @ msg
                       @ appendAttrs []
                           (filter (\<lambda>a. Key a \<noteq> gfn)
                              (map (deriv_attr gfn) (pre @ DWithGroup g1 # post) @ Record_Add kvs)) []
                       @ [CHR 0x0A])])"
proof -
  let ?ds = "pre @ DWithGroup g1 # post"
  let ?h = "\<lparr>opts = configured_options cfg, attrs = map (deriv_attr gfn) ?ds,
             groups = [], groupFieldName = gfn\<rparr>"
  let ?r = "\<lparr>rTime = now, rLevel = L, rMessage = msg, rAttrs = Record_Add kvs\<rparr>"
  have gf: "configured_field cfg = gfn"
    using assms(2) by (simp add: configured_field_def)
  have lg: "SlogLogger_derive (logslog_New cfg) ?ds = Inr \<lparr>logger = Console ?h, lGroupFieldName = gfn\<rparr>"
    using chain_console [OF assms(1), of ?ds] unfolding gf .
  have fm: "first_match gfn (map (deriv_attr gfn) ?ds) = Some g1"
    by (rule first_match_chain [OF assms(3)])
  have sg: "shown_group gfn (map (deriv_attr gfn) ?ds) (Record_Add kvs) = g1"
    using fm assms(4) by (simp add: shown_group_def)
  have line: "Handle_line ?h ?r =
      line_head now L @ esc ''36'' @ ''['' @ g1 @ '']'' @ esc ''0'' @ '' '' @ msg
       @ appendAttrs [] (filter (\<lambda>a. Key a \<noteq> gfn) (map (deriv_attr gfn) ?ds @ Record_Add kvs)) []
       @ [CHR 0x0A]"
  proof -
    have "Handle_line ?h ?r =
        line_head now L @ bracket (shown_group gfn (map (deriv_attr gfn) ?ds) (Record_Add kvs)) @ msg
         @ appendOthers [] gfn (map (deriv_attr gfn) ?ds) []
         @ appendOthers [] gfn (Record_Add kvs) [] @ [CHR 0x0A]"
      using Handle_line_shape [of ?h ?r] by (simp del: map_append)
    then have "Handle_line ?h ?r =
        line_head now L @ bracket g1 @ msg
         @ appendOthers [] gfn (map (deriv_attr gfn) ?ds) []
         @ appendOthers [] gfn (Record_Add kvs) [] @ [CHR 0x0A]"
      unfolding sg .
    then show ?thesis
      using assms(4)
      by (simp add: bracket_def appendOthers_filter appendAttrs_append)
  qed
  have "SlogLogger_log \<lparr>logger = Console ?h, lGroupFieldName = gfn\<rparr> now L msg kvs w =
          Inr (w @ [Write (Handle_line ?h ?r)])"
    using assms(5)
    by (simp add: log_console ConsoleHandler_Enabled_def configured_options_def)
  then have "and_then (SlogLogger_derive (logslog_New cfg) ?ds) (\<lambda>l. SlogLogger_log l now L msg kvs w) =
          Inr (w @ [Write (Handle_line ?h ?r)])"
    unfolding lg by (simp add: and_then_def)
  with line lg show ?thesis by simp
qed

text \<open>
  The theorem at the chain \<^verbatim>\<open>With("a", 1)\<close>, \<^verbatim>\<open>WithGroup("svc")\<close>,
  \<^verbatim>\<open>WithGroup("db")\<close> under the default configuration: the line shows
  \<^verbatim>\<open>[svc]\<close> and \<^verbatim>\<open>a=1\<close>, and \<^verbatim>\<open>db\<close> nowhere.
\<close>

theorem chained_groups_witness:
  "cfgFormat \<lparr>cfgLevel = '''', cfgFormat = '''', cfgGroupFieldName = ''''\<rparr> \<noteq> ''json''
   \<and> \<not> binds_key ''_group'' (DWith ''a'' (AInt 1))
   \<and> configured_level \<lparr>cfgLevel = '''', cfgFormat = '''', cfgGroupFieldName = ''''\<rparr> \<le> LevelInfo
   \<and> and_then
        (SlogLogger_derive (logslog_New \<lparr>cfgLevel = '''', cfgFormat = '''', cfgGroupFieldName = ''''\<rparr>)
           ([DWith ''a'' (AInt 1)] @ DWithGroup ''svc'' # [DWithGroup ''db'']))
        (\<lambda>l. SlogLogger_log l ''01 Jan 26 10:00 UTC'' LevelInfo ''m'' [] [])
      = Inr [Write (esc ''90'' @ ''01 Jan 26 10:00 UTC'' @ esc ''0'' @ '' '' @ esc ''32'' @ ''INF'' @ esc ''0'' @ '' '' @
                esc ''36'' @ ''[svc]'' @ esc ''0'' @ '' '' @ ''m'' @
                '' '' @ esc ''36'' @ ''a'' @ esc ''0'' @ ''=1'' @ [CHR 0x0A])]"
proof -
  have cl: "configured_level \<lparr>cfgLevel = '''', cfgFormat = '''', cfgGroupFieldName = ''''\<rparr> = LevelInfo"
    by (simp add: configured_level_def parse_info)
  have nb: "\<forall>d \<in> set [DWith ''a'' (AInt 1)]. \<not> binds_key ''_group'' d"
    by (simp add: binds_key_def)
  have d1: "digits (Suc 0) = ''1''"
    by (simp add: digits.simps digit_char_def)
  have fmt: "cfgFormat \<lparr>cfgLevel = '''', cfgFormat = '''', cfgGroupFieldName = ''''\<rparr> \<noteq> ''json''"
    and gf: "''_group'' = (if cfgGroupFieldName \<lparr>cfgLevel = '''', cfgFormat = '''', cfgGroupFieldName = ''''\<rparr> = ''''
                             then ''_group''
                             else cfgGroupFieldName \<lparr>cfgLevel = '''', cfgFormat = '''', cfgGroupFieldName = ''''\<rparr>)"
    and ne: "''svc'' \<noteq> ''''"
    and le: "configured_level \<lparr>cfgLevel = '''', cfgFormat = '''', cfgGroupFieldName = ''''\<rparr> \<le> LevelInfo"
    using cl by simp_all
  show ?thesis
    using chained_groups [OF fmt gf nb ne le, of "[DWithGroup ''db'']" "''01 Jan 26 10:00 UTC''" "''m''" "[]" "[]",
        THEN conjunct2] nb cl
    by (simp add: binds_key_def line_head_def getLevelColor_def getLevelString_def level_defs
        Record_Add_def FormatInt_def d1 del: SlogLogger_derive.simps)
qed

text \<open>
  Claim C9 as stated fails: after \<^verbatim>\<open>WithGroup("")\<close> and \<^verbatim>\<open>WithGroup("b")\<close>,
  a line with a call-time attribute under the group field's key has the bracketed group
  of that attribute, which is the name of no \<^verbatim>\<open>WithGroup\<close> call.
\<close>

theorem chained_groups_counterexample:
  "SlogLogger_WithGroup
     (logslog_New \<lparr>cfgLevel = ''info'', cfgFormat = ''console'', cfgGroupFieldName = ''''\<rparr>) ''''
   = Inr \<lparr>logger = Console \<lparr>opts = \<lparr>optLevel = Some LevelInfo, optReplaceAttr = Some New_ReplaceAttr\<rparr>,
                              attrs = [Attr ''_group'' (StringValue '''')],
                              groups = [], groupFieldName = ''_group''\<rparr>,
          lGroupFieldName = ''_group''\<rparr>
   \<and> SlogLogger_WithGroup
       \<lparr>logger = Console \<lparr>opts = \<lparr>optLevel = Some LevelInfo, optReplaceAttr = Some New_ReplaceAttr\<rparr>,
                            attrs = [Attr ''_group'' (StringValue '''')],
                            groups = [], groupFieldName = ''_group''\<rparr>,
        lGroupFieldName = ''_group''\<rparr> ''b''
   = Inr \<lparr>logger = Console \<lparr>opts = \<lparr>optLevel = Some LevelInfo, optReplaceAttr = Some New_ReplaceAttr\<rparr>,
                              attrs = [Attr ''_group'' (StringValue ''''), Attr ''_group'' (StringValue ''b'')],
                              groups = [], groupFieldName = ''_group''\<rparr>,
          lGroupFieldName = ''_group''\<rparr>
   \<and> SlogLogger_Info
       \<lparr>logger = Console \<lparr>opts = \<lparr>optLevel = Some LevelInfo, optReplaceAttr = Some New_ReplaceAttr\<rparr>,
                            attrs = [Attr ''_group'' (StringValue ''''), Attr ''_group'' (StringValue ''b'')],
                            groups = [], groupFieldName = ''_group''\<rparr>,
        lGroupFieldName = ''_group''\<rparr>
       ''01 Jan 26 10:00 UTC'' ''m'' [AStr ''_group'', AStr ''x''] []
   = Inr [Write (esc ''90'' @ ''01 Jan 26 10:00 UTC'' @ esc ''0'' @ '' '' @ esc ''32'' @ ''INF'' @ esc ''0'' @ '' '' @
             esc ''36'' @ ''[x]'' @ esc ''0'' @ '' '' @ ''m'' @ [CHR 0x0A])]"
  by (simp add: logslog_New_def SlogLogger_Info_def SlogLogger_WithGroup_def SlogLogger_log_def
      Logger_Log_def Logger_With_def NewConsoleHandler_def ConsoleHandler_WithAttrs_def
      ConsoleHandler_Enabled_def parse_info ConsoleHandler_Handle_def Handle_line_def
      Record_Add_def isEmptyGroup_def getLevelColor_def getLevelString_def level_defs Let_def)

section \<open>The memory of the capturing backend\<close>

lemma grow_loop_ge: "newLen \<le> grow_loop c newLen"
proof (induction c newLen rule: grow_loop.induct)
  case (1 newcap newLen)
  then show ?case
    by (subst grow_loop.simps) (auto simp: Let_def)
qed

lemma nextslicecap_ge: "newLen \<le> nextslicecap newLen oldCap"
  by (auto simp: nextslicecap_def Let_def grow_loop_ge)

lemma heap_ok_empty: "heap_ok empty_heap"
  by (simp add: heap_ok_def empty_heap_def zeroLogger_def)

lemma heap_ok_D:
  assumes "heap_ok h"
  shows "mattrs (hobjs h a) < hlim h"
    and "sbase (Entries (hobjs h a)) < hlim h"
    and "slen (Entries (hobjs h a)) \<le> scap (Entries (hobjs h a))"
    and "length (harrays h (sbase (Entries (hobjs h a)))) = scap (Entries (hobjs h a))"
  using assms by (simp_all add: heap_ok_def)

lemma heap_ok_New:
  assumes "heap_ok h"
  shows "heap_ok (snd (logtesting_New h))"
  unfolding heap_ok_def
proof
  fix a
  show "mattrs (hobjs (snd (logtesting_New h)) a) < hlim (snd (logtesting_New h)) \<and>
        sbase (Entries (hobjs (snd (logtesting_New h)) a)) < hlim (snd (logtesting_New h)) \<and>
        slen (Entries (hobjs (snd (logtesting_New h)) a)) \<le> scap (Entries (hobjs (snd (logtesting_New h)) a)) \<and>
        length (harrays (snd (logtesting_New h)) (sbase (Entries (hobjs (snd (logtesting_New h)) a)))) =
          scap (Entries (hobjs (snd (logtesting_New h)) a))"
    using heap_ok_D [OF assms, of a]
    by (auto simp: logtesting_New_def make_slice_def alloc_array_def alloc_map_def alloc_obj_def Let_def)
qed

lemma With_result:
  "MockLogger_With m k v h =
     (hlim h + 1,
      h\<lparr>hmaps := (hmaps h)(hlim h := (hmaps h (mattrs (hobjs h m)))(k \<mapsto> v)),
        hobjs := (hobjs h)(hlim h + 1 := \<lparr>Entries = Entries (hobjs h m), mattrs = hlim h, mgroup = mgroup (hobjs h m)\<rparr>),
        hlim := hlim h + 2\<rparr>)"
  by (simp add: MockLogger_With_def alloc_map_def alloc_obj_def Let_def)

lemma WithGroup_result:
  "MockLogger_WithGroup m g h =
     (hlim h + 1,
      h\<lparr>hmaps := (hmaps h)(hlim h := hmaps h (mattrs (hobjs h m))),
        hobjs := (hobjs h)(hlim h + 1 := \<lparr>Entries = Entries (hobjs h m), mattrs = hlim h, mgroup = g\<rparr>),
        hlim := hlim h + 2\<rparr>)"
  by (simp add: MockLogger_WithGroup_def alloc_map_def alloc_obj_def Let_def)

lemma heap_ok_With:
  assumes "heap_ok h"
  shows "heap_ok (snd (MockLogger_With m k v h))"
  unfolding heap_ok_def With_result
proof
  fix a
  let ?h' = "snd (hlim h + 1,
      h\<lparr>hmaps := (hmaps h)(hlim h := (hmaps h (mattrs (hobjs h m)))(k \<mapsto> v)),
        hobjs := (hobjs h)(hlim h + 1 := \<lparr>Entries = Entries (hobjs h m), mattrs = hlim h, mgroup = mgroup (hobjs h m)\<rparr>),
        hlim := hlim h + 2\<rparr>)"
  show "mattrs (hobjs ?h' a) < hlim ?h' \<and>
        sbase (Entries (hobjs ?h' a)) < hlim ?h' \<and>
        slen (Entries (hobjs ?h' a)) \<le> scap (Entries (hobjs ?h' a)) \<and>
        length (harrays ?h' (sbase (Entries (hobjs ?h' a)))) = scap (Entries (hobjs ?h' a))"
    using heap_ok_D [OF assms, of a] heap_ok_D [OF assms, of m]
    by auto
qed

lemma heap_ok_WithGroup:
  assumes "heap_ok h"
  shows "heap_ok (snd (MockLogger_WithGroup m g h))"
  unfolding heap_ok_def WithGroup_result
proof
  fix a
  let ?h' = "snd (hlim h + 1,
      h\<lparr>hmaps := (hmaps h)(hlim h := hmaps h (mattrs (hobjs h m))),
        hobjs := (hobjs h)(hlim h + 1 := \<lparr>Entries = Entries (hobjs h m), mattrs = hlim h, mgroup = g\<rparr>),
        hlim := hlim h + 2\<rparr>)"
  show "mattrs (hobjs ?h' a) < hlim ?h' \<and>
        sbase (Entries (hobjs ?h' a)) < hlim ?h' \<and>
        slen (Entries (hobjs ?h' a)) \<le> scap (Entries (hobjs ?h' a)) \<and>
        length (harrays ?h' (sbase (Entries (hobjs ?h' a)))) = scap (Entries (hobjs ?h' a))"
    using heap_ok_D [OF assms, of a] heap_ok_D [OF assms, of m]
    by auto
qed

lemma heap_ok_apply:
  assumes "heap_ok h"
  shows "heap_ok (snd (MockLogger_apply m d h))"
  using assms
  by (cases d) (simp_all add: heap_ok_With heap_ok_WithGroup MockLogger_WithError_def)

lemma heap_ok_calls:
  assumes "heap_ok h"
  shows "heap_ok (MockLogger_calls cs h)"
  using assms
  by (induction cs arbitrary: h) (auto simp: heap_ok_apply)

text \<open>A derivation leaves every existing logger object and its map as they were.\<close>

lemma apply_frame:
  assumes "heap_ok h" and "a < hlim h"
  shows "hobjs (snd (MockLogger_apply m d h)) a = hobjs h a"
    and "bound_attrs (snd (MockLogger_apply m d h)) a = bound_attrs h a"
    and "hlim h \<le> hlim (snd (MockLogger_apply m d h))"
    and "harrays (snd (MockLogger_apply m d h)) = harrays h"
  using assms heap_ok_D(1) [OF assms(1), of a]
  by (cases d; simp add: With_result WithGroup_result MockLogger_WithError_def bound_attrs_def)+

lemma calls_frame:
  assumes "heap_ok h" and "a < hlim h"
  shows "hobjs (MockLogger_calls cs h) a = hobjs h a
         \<and> bound_attrs (MockLogger_calls cs h) a = bound_attrs h a
         \<and> hlim h \<le> hlim (MockLogger_calls cs h)
         \<and> harrays (MockLogger_calls cs h) = harrays h"
  using assms
proof (induction cs arbitrary: h)
  case Nil
  then show ?case by simp
next
  case (Cons c cs)
  obtain m d where c: "c = (m, d)" by (cases c)
  let ?h1 = "snd (MockLogger_apply m d h)"
  have ok1: "heap_ok ?h1" by (rule heap_ok_apply [OF Cons.prems(1)])
  have lim1: "hlim h \<le> hlim ?h1" by (rule apply_frame(3) [OF Cons.prems])
  then have a1: "a < hlim ?h1" using Cons.prems(2) by simp
  show ?case
    using Cons.IH [OF ok1 a1] apply_frame [OF Cons.prems, of m d] lim1
    by (simp add: c)
qed

text \<open>What \<^verbatim>\<open>log\<close> does to the memory, in the two cases of \<^verbatim>\<open>append\<close>.\<close>

lemma log_in_place:
  assumes "slen (Entries (hobjs h m)) < scap (Entries (hobjs h m))"
  shows "MockLogger_log m lv msg kvs h =
     h\<lparr>hmaps := (hmaps h)(hlim h := hmaps h (mattrs (hobjs h m))),
       hlim := hlim h + 1,
       harrays := (harrays h)(sbase (Entries (hobjs h m)) :=
          (harrays h (sbase (Entries (hobjs h m))))[slen (Entries (hobjs h m)) :=
             \<lparr>Level = lv, Message = msg, KeysAndValues = kvs, Attrs = hlim h, Group = mgroup (hobjs h m)\<rparr>]),
       hobjs := (hobjs h)(m := (hobjs h m)\<lparr>Entries := (Entries (hobjs h m))\<lparr>slen := slen (Entries (hobjs h m)) + 1\<rparr>\<rparr>)\<rparr>"
  using assms
  by (simp add: MockLogger_log_def alloc_map_def append1_def Let_def)

lemma log_grow:
  assumes "\<not> slen (Entries (hobjs h m)) < scap (Entries (hobjs h m))"
  shows "MockLogger_log m lv msg kvs h =
     h\<lparr>hmaps := (hmaps h)(hlim h := hmaps h (mattrs (hobjs h m))),
       harrays := (harrays h)(hlim h + 1 :=
          elems h (Entries (hobjs h m))
          @ [\<lparr>Level = lv, Message = msg, KeysAndValues = kvs, Attrs = hlim h, Group = mgroup (hobjs h m)\<rparr>]
          @ replicate (nextslicecap (slen (Entries (hobjs h m)) + 1) (scap (Entries (hobjs h m)))
                       - (slen (Entries (hobjs h m)) + 1)) zeroEntry),
       hlim := hlim h + 2,
       hobjs := (hobjs h)(m := (hobjs h m)\<lparr>Entries :=
          \<lparr>sbase = hlim h + 1, slen = slen (Entries (hobjs h m)) + 1,
            scap = nextslicecap (slen (Entries (hobjs h m)) + 1) (scap (Entries (hobjs h m)))\<rparr>\<rparr>)\<rparr>"
  using assms
  by (simp add: MockLogger_log_def alloc_map_def alloc_array_def append1_def elems_def Let_def)

lemma elems_length:
  assumes "heap_ok h"
  shows "length (elems h (Entries (hobjs h a))) = slen (Entries (hobjs h a))"
  using heap_ok_D(3,4) [OF assms, of a] by (simp add: elems_def)

lemma log_appends:
  assumes "heap_ok h"
  shows "MockLogger_GetEntries m (MockLogger_log m lv msg kvs h) =
           MockLogger_GetEntries m h
           @ [\<lparr>Level = lv, Message = msg, KeysAndValues = kvs, Attrs = hlim h, Group = mgroup (hobjs h m)\<rparr>]"
proof (cases "slen (Entries (hobjs h m)) < scap (Entries (hobjs h m))")
  case True
  then have "slen (Entries (hobjs h m)) < length (harrays h (sbase (Entries (hobjs h m))))"
    using heap_ok_D(4) [OF assms, of m] by simp
  then show ?thesis
    by (simp add: log_in_place [OF True] MockLogger_GetEntries_def elems_def
        take_Suc_conv_app_nth)
next
  case False
  show ?thesis
    using elems_length [OF assms, of m]
    by (simp add: log_grow [OF False] MockLogger_GetEntries_def)
       (simp add: elems_def)
qed

lemma log_maps:
  assumes "heap_ok h"
  shows "hmaps (MockLogger_log m lv msg kvs h) (hlim h) = bound_attrs h m"
    and "bound_attrs (MockLogger_log m lv msg kvs h) a = bound_attrs h a"
    and "hlim h < hlim (MockLogger_log m lv msg kvs h)"
proof -
  have lt: "mattrs (hobjs h a) < hlim h" "mattrs (hobjs h m) < hlim h"
    using heap_ok_D(1) [OF assms] by simp_all
  show "hmaps (MockLogger_log m lv msg kvs h) (hlim h) = bound_attrs h m"
    by (cases "slen (Entries (hobjs h m)) < scap (Entries (hobjs h m))")
       (simp_all add: log_in_place log_grow bound_attrs_def)
  show "bound_attrs (MockLogger_log m lv msg kvs h) a = bound_attrs h a"
    using lt
    by (cases "slen (Entries (hobjs h m)) < scap (Entries (hobjs h m))")
       (auto simp add: log_in_place log_grow bound_attrs_def)
  show "hlim h < hlim (MockLogger_log m lv msg kvs h)"
    by (cases "slen (Entries (hobjs h m)) < scap (Entries (hobjs h m))")
       (simp_all add: log_in_place log_grow)
qed

text \<open>An emission through one logger leaves every other logger object as it was.\<close>

lemma log_other_object:
  assumes "a \<noteq> m"
  shows "hobjs (MockLogger_log m lv msg kvs h) a = hobjs h a"
  using assms
  by (cases "slen (Entries (hobjs h m)) < scap (Entries (hobjs h m))")
     (simp_all add: log_in_place log_grow)

lemma heap_ok_log:
  assumes "heap_ok h"
  shows "heap_ok (MockLogger_log m lv msg kvs h)"
proof (cases "slen (Entries (hobjs h m)) < scap (Entries (hobjs h m))")
  case True
  show ?thesis
    unfolding heap_ok_def log_in_place [OF True]
  proof
    fix a
    let ?h' = "h\<lparr>hmaps := (hmaps h)(hlim h := hmaps h (mattrs (hobjs h m))),
       hlim := hlim h + 1,
       harrays := (harrays h)(sbase (Entries (hobjs h m)) :=
          (harrays h (sbase (Entries (hobjs h m))))[slen (Entries (hobjs h m)) :=
             \<lparr>Level = lv, Message = msg, KeysAndValues = kvs, Attrs = hlim h, Group = mgroup (hobjs h m)\<rparr>]),
       hobjs := (hobjs h)(m := (hobjs h m)\<lparr>Entries := (Entries (hobjs h m))\<lparr>slen := slen (Entries (hobjs h m)) + 1\<rparr>\<rparr>)\<rparr>"
    show "mattrs (hobjs ?h' a) < hlim ?h' \<and>
          sbase (Entries (hobjs ?h' a)) < hlim ?h' \<and>
          slen (Entries (hobjs ?h' a)) \<le> scap (Entries (hobjs ?h' a)) \<and>
          length (harrays ?h' (sbase (Entries (hobjs ?h' a)))) = scap (Entries (hobjs ?h' a))"
      using heap_ok_D [OF assms, of a] heap_ok_D [OF assms, of m] True
      by auto
  qed
next
  case False
  show ?thesis
    unfolding heap_ok_def log_grow [OF False]
  proof
    fix a
    let ?h' = "h\<lparr>hmaps := (hmaps h)(hlim h := hmaps h (mattrs (hobjs h m))),
       harrays := (harrays h)(hlim h + 1 :=
          elems h (Entries (hobjs h m))
          @ [\<lparr>Level = lv, Message = msg, KeysAndValues = kvs, Attrs = hlim h, Group = mgroup (hobjs h m)\<rparr>]
          @ replicate (nextslicecap (slen (Entries (hobjs h m)) + 1) (scap (Entries (hobjs h m)))
                       - (slen (Entries (hobjs h m)) + 1)) zeroEntry),
       hlim := hlim h + 2,
       hobjs := (hobjs h)(m := (hobjs h m)\<lparr>Entries :=
          \<lparr>sbase = hlim h + 1, slen = slen (Entries (hobjs h m)) + 1,
            scap = nextslicecap (slen (Entries (hobjs h m)) + 1) (scap (Entries (hobjs h m)))\<rparr>\<rparr>)\<rparr>"
    have ge: "slen (Entries (hobjs h m)) + 1
                \<le> nextslicecap (slen (Entries (hobjs h m)) + 1) (scap (Entries (hobjs h m)))"
      by (rule nextslicecap_ge)
    show "mattrs (hobjs ?h' a) < hlim ?h' \<and>
          sbase (Entries (hobjs ?h' a)) < hlim ?h' \<and>
          slen (Entries (hobjs ?h' a)) \<le> scap (Entries (hobjs ?h' a)) \<and>
          length (harrays ?h' (sbase (Entries (hobjs ?h' a)))) = scap (Entries (hobjs ?h' a))"
      using heap_ok_D [OF assms, of a] heap_ok_D [OF assms, of m] ge elems_length [OF assms, of m]
      by auto
  qed
qed

lemma heap_ok_Reset:
  assumes "heap_ok h"
  shows "heap_ok (MockLogger_Reset m h)"
  unfolding heap_ok_def
proof
  fix a
  show "mattrs (hobjs (MockLogger_Reset m h) a) < hlim (MockLogger_Reset m h) \<and>
        sbase (Entries (hobjs (MockLogger_Reset m h) a)) < hlim (MockLogger_Reset m h) \<and>
        slen (Entries (hobjs (MockLogger_Reset m h) a)) \<le> scap (Entries (hobjs (MockLogger_Reset m h) a)) \<and>
        length (harrays (MockLogger_Reset m h) (sbase (Entries (hobjs (MockLogger_Reset m h) a)))) =
          scap (Entries (hobjs (MockLogger_Reset m h) a))"
    using heap_ok_D [OF assms, of a] heap_ok_D [OF assms, of m]
    by (auto simp: MockLogger_Reset_def make_slice_def alloc_array_def Let_def)
qed

lemma heap_ok_LastEntry:
  assumes "heap_ok h"
  shows "heap_ok (snd (MockLogger_LastEntry m h))"
  unfolding heap_ok_def
proof
  fix a
  show "mattrs (hobjs (snd (MockLogger_LastEntry m h)) a) < hlim (snd (MockLogger_LastEntry m h)) \<and>
        sbase (Entries (hobjs (snd (MockLogger_LastEntry m h)) a)) < hlim (snd (MockLogger_LastEntry m h)) \<and>
        slen (Entries (hobjs (snd (MockLogger_LastEntry m h)) a))
          \<le> scap (Entries (hobjs (snd (MockLogger_LastEntry m h)) a)) \<and>
        length (harrays (snd (MockLogger_LastEntry m h)) (sbase (Entries (hobjs (snd (MockLogger_LastEntry m h)) a)))) =
          scap (Entries (hobjs (snd (MockLogger_LastEntry m h)) a))"
    using heap_ok_D [OF assms, of a]
    by (auto simp: MockLogger_LastEntry_def alloc_cell_def Let_def)
qed

lemma last_captured_log:
  assumes "heap_ok h"
  shows "last (captured m (MockLogger_log m lv msg kvs h)) =
           (lv, msg, kvs, bound_attrs h m, mgroup (hobjs h m))"
  using log_maps(1) [OF assms, of m lv msg kvs]
  by (simp add: captured_def log_appends [OF assms] entry_view_def)

lemma WithAttrs_mem_result:
  assumes "slen s \<le> length (aarrays st (sbase s))" and "sbase s < alim st"
  shows "WithAttrs_mem s as st =
           (\<lparr>sbase = alim st, slen = slen s + length as, scap = slen s + length as\<rparr>,
            st\<lparr>aarrays := (aarrays st)(alim st := aelems st s @ as), alim := alim st + 1\<rparr>)"
proof -
  have len: "length (aelems st s) = slen s"
    using assms(1) by (simp add: aelems_def)
  have other: "sbase s \<noteq> alim st"
    using assms(2) by simp
  show ?thesis
    using len other
    by (simp add: WithAttrs_mem_def make_attrs_def copy_at_def Let_def aelems_def)
qed

lemma WithAttrs_mem_frame:
  assumes "slen s \<le> length (aarrays st (sbase s))" and "sbase s < alim st" and "sbase t < alim st"
  shows "sbase (fst (WithAttrs_mem s as st)) = alim st"
    and "aelems (snd (WithAttrs_mem s as st)) (fst (WithAttrs_mem s as st)) = aelems st s @ as"
    and "aelems (snd (WithAttrs_mem s as st)) s = aelems st s"
    and "aelems (snd (WithAttrs_mem s as st)) t = aelems st t"
proof -
  have len: "length (aelems st s) = slen s"
    using assms(1) by (simp add: aelems_def)
  show "sbase (fst (WithAttrs_mem s as st)) = alim st"
    by (simp add: WithAttrs_mem_result [OF assms(1,2)])
  show "aelems (snd (WithAttrs_mem s as st)) (fst (WithAttrs_mem s as st)) = aelems st s @ as"
    using len by (simp add: WithAttrs_mem_result [OF assms(1,2)] aelems_def)
  show "aelems (snd (WithAttrs_mem s as st)) s = aelems st s"
    using assms(2) by (simp add: WithAttrs_mem_result [OF assms(1,2)] aelems_def)
  show "aelems (snd (WithAttrs_mem s as st)) t = aelems st t"
    using assms(3) by (simp add: WithAttrs_mem_result [OF assms(1,2)] aelems_def)
qed

lemma siblings:
  assumes "heap_ok h" and "m < hlim h"
  shows "fst (MockLogger_With m ''a'' (AInt 1) h) \<noteq>
           fst (MockLogger_With m ''b'' (AInt 2) (snd (MockLogger_With m ''a'' (AInt 1) h)))"
    and "bound_attrs (snd (MockLogger_With m ''b'' (AInt 2) (snd (MockLogger_With m ''a'' (AInt 1) h))))
           (fst (MockLogger_With m ''a'' (AInt 1) h)) = (bound_attrs h m)(''a'' \<mapsto> AInt 1)"
    and "bound_attrs (snd (MockLogger_With m ''b'' (AInt 2) (snd (MockLogger_With m ''a'' (AInt 1) h))))
           (fst (MockLogger_With m ''b'' (AInt 2) (snd (MockLogger_With m ''a'' (AInt 1) h))))
           = (bound_attrs h m)(''b'' \<mapsto> AInt 2)"
    and "mgroup (hobjs (snd (MockLogger_With m ''b'' (AInt 2) (snd (MockLogger_With m ''a'' (AInt 1) h))))
           (fst (MockLogger_With m ''a'' (AInt 1) h))) = mgroup (hobjs h m)"
    and "mgroup (hobjs (snd (MockLogger_With m ''b'' (AInt 2) (snd (MockLogger_With m ''a'' (AInt 1) h))))
           (fst (MockLogger_With m ''b'' (AInt 2) (snd (MockLogger_With m ''a'' (AInt 1) h)))))
           = mgroup (hobjs h m)"
  using assms(2) heap_ok_D(1) [OF assms(1), of m]
  by (simp_all add: With_result bound_attrs_def)

section \<open>Derivation leaves the receiver unchanged\<close>

lemma zerolog_apply_context:
  "zcontext (zlogger (ZerologLogger_apply z d)) = zcontext (zlogger z) @ [deriv_field d]"
  by (cases d)
     (simp_all add: ZerologLogger_With_def ZerologLogger_WithError_def ZerologLogger_WithGroup_def)

lemma zerolog_derive_context:
  "zcontext (zlogger (ZerologLogger_derive z ds)) = zcontext (zlogger z) @ map deriv_field ds"
proof (induction ds arbitrary: z)
  case Nil
  then show ?case by (simp add: ZerologLogger_derive_def)
next
  case (Cons d ds)
  show ?case
    using Cons.IH [of "ZerologLogger_apply z d"]
    by (simp add: ZerologLogger_derive_def zerolog_apply_context)
qed

lemma null_derive: "NullLogger_derive nl ds = nl"
proof (induction ds)
  case Nil
  then show ?case by (simp add: NullLogger_derive_def)
next
  case (Cons d ds)
  have "NullLogger_apply nl d = nl"
    by (cases d)
       (simp_all add: NullLogger_With_def NullLogger_WithError_def NullLogger_WithGroup_def)
  with Cons show ?case by (simp add: NullLogger_derive_def)
qed

text \<open>
  What holds of derivation on the four backends.

  Capturing backend, in any well-formed memory and for a logger \<open>m\<close> allocated in it:
  \<^verbatim>\<open>With\<close> returns the address of a new object; after any sequence of derivation
  calls on any receivers, the object of \<open>m\<close> and the contents of its map are unchanged,
  and the entry an emission through \<open>m\<close> then appends carries exactly the attributes
  \<open>m\<close> had before the calls; the two loggers \<^verbatim>\<open>With("a", 1)\<close> and
  \<^verbatim>\<open>With("b", 2)\<close> return for the parent \<open>m\<close> are different objects, whose
  emissions carry the parent's attributes and their own added one only.

  Slog backend, console format: a chain of derivations returns a logger whose handler
  has the receiver's attributes followed by the chain's, one per call and in call
  order; in memory \<^verbatim>\<open>WithAttrs\<close> builds that list in a fresh array, so that the
  receiver's slice and every other existing slice read as before. Slog backend, JSON
  format: a chain of derivations formats the chain's attributes; when that returns, the
  logger returned has the receiver's bound attributes followed by what was formatted,
  and when it panics, so does the chain.

  Zerolog backend: a chain of derivations returns a logger whose context is the
  receiver's followed by the chain's fields. Null backend: the logger is an empty struct
  passed by value; every derivation returns the receiver, which has no attributes and
  emits nothing.
\<close>

lemma derivation_leaves_receiver:
  assumes "heap_ok h" and "m < hlim h"
    and "slen s \<le> length (aarrays st (sbase s))" and "sbase s < alim st" and "sbase t < alim st"
  shows
    "hlim h \<le> fst (MockLogger_With m k v h)
     \<and> hobjs (MockLogger_calls cs h) m = hobjs h m
     \<and> bound_attrs (MockLogger_calls cs h) m = bound_attrs h m
     \<and> last (captured m (MockLogger_log m lv msg kvs (MockLogger_calls cs h))) =
         (lv, msg, kvs, bound_attrs h m, mgroup (hobjs h m))
     \<and> (let (a, h1) = MockLogger_With m ''a'' (AInt 1) h;
             (b, h2) = MockLogger_With m ''b'' (AInt 2) h1
         in a \<noteq> b
            \<and> bound_attrs h2 a = (bound_attrs h m)(''a'' \<mapsto> AInt 1)
            \<and> bound_attrs h2 b = (bound_attrs h m)(''b'' \<mapsto> AInt 2)
            \<and> last (captured a (MockLogger_log a lv msg kvs h2)) =
                (lv, msg, kvs, (bound_attrs h m)(''a'' \<mapsto> AInt 1), mgroup (hobjs h m))
            \<and> last (captured b (MockLogger_log b lv msg kvs h2)) =
                (lv, msg, kvs, (bound_attrs h m)(''b'' \<mapsto> AInt 2), mgroup (hobjs h m)))
     \<and> SlogLogger_derive \<lparr>logger = Console ch, lGroupFieldName = g\<rparr> ds =
         Inr \<lparr>logger = Console (ch\<lparr>attrs := attrs ch @ map (deriv_attr g) ds\<rparr>), lGroupFieldName = g\<rparr>
     \<and> SlogLogger_derive \<lparr>logger = JSON \<lparr>handler = jh\<rparr>, lGroupFieldName = g\<rparr> ds =
         (case handleState_appendAttrs (optReplaceAttr (jopts jh)) [] (map (deriv_attr g) ds) of
            Inl p \<Rightarrow> Inl p
          | Inr out \<Rightarrow>
              Inr \<lparr>logger = JSON \<lparr>handler = jh\<lparr>jattrs := jattrs jh @ out\<rparr>\<rparr>, lGroupFieldName = g\<rparr>)
     \<and> (let (n, st') = WithAttrs_mem s as st
         in sbase n = alim st
            \<and> aelems st' n = aelems st s @ as
            \<and> aelems st' s = aelems st s
            \<and> aelems st' t = aelems st t)
     \<and> zcontext (zlogger (ZerologLogger_derive z ds)) = zcontext (zlogger z) @ map deriv_field ds
     \<and> zcontext (zlogger (ZerologLogger_With z k v)) = zcontext (zlogger z) @ [(k, v)]
     \<and> NullLogger_derive nl ds = nl
     \<and> NullLogger_With nl k v = nl
     \<and> NullLogger_Info (NullLogger_derive nl ds) msg kvs w = w"
proof -
  let ?h' = "MockLogger_calls cs h"
  have ok': "heap_ok ?h'"
    by (rule heap_ok_calls [OF assms(1)])
  have frame: "hobjs ?h' m = hobjs h m" "bound_attrs ?h' m = bound_attrs h m"
    using calls_frame [OF assms(1,2), of cs] by simp_all
  have emit: "last (captured m (MockLogger_log m lv msg kvs ?h')) =
         (lv, msg, kvs, bound_attrs h m, mgroup (hobjs h m))"
    using last_captured_log [OF ok', of m lv msg kvs] frame by simp
  let ?a = "fst (MockLogger_With m ''a'' (AInt 1) h)"
  let ?h1 = "snd (MockLogger_With m ''a'' (AInt 1) h)"
  let ?b = "fst (MockLogger_With m ''b'' (AInt 2) ?h1)"
  let ?h2 = "snd (MockLogger_With m ''b'' (AInt 2) ?h1)"
  have ok2: "heap_ok ?h2"
    by (intro heap_ok_With assms(1))
  have sib: "?a \<noteq> ?b"
    "bound_attrs ?h2 ?a = (bound_attrs h m)(''a'' \<mapsto> AInt 1)"
    "bound_attrs ?h2 ?b = (bound_attrs h m)(''b'' \<mapsto> AInt 2)"
    "mgroup (hobjs ?h2 ?a) = mgroup (hobjs h m)"
    "mgroup (hobjs ?h2 ?b) = mgroup (hobjs h m)"
    using siblings [OF assms(1,2)] by simp_all
  have emit_a: "last (captured ?a (MockLogger_log ?a lv msg kvs ?h2)) =
      (lv, msg, kvs, (bound_attrs h m)(''a'' \<mapsto> AInt 1), mgroup (hobjs h m))"
    using last_captured_log [OF ok2, of ?a lv msg kvs] sib(2,4) by simp
  have emit_b: "last (captured ?b (MockLogger_log ?b lv msg kvs ?h2)) =
      (lv, msg, kvs, (bound_attrs h m)(''b'' \<mapsto> AInt 2), mgroup (hobjs h m))"
    using last_captured_log [OF ok2, of ?b lv msg kvs] sib(3,5) by simp
  have new: "hlim h \<le> fst (MockLogger_With m k v h)"
    by (simp add: With_result)
  have mem: "sbase (fst (WithAttrs_mem s as st)) = alim st"
    "aelems (snd (WithAttrs_mem s as st)) (fst (WithAttrs_mem s as st)) = aelems st s @ as"
    "aelems (snd (WithAttrs_mem s as st)) s = aelems st s"
    "aelems (snd (WithAttrs_mem s as st)) t = aelems st t"
    using WithAttrs_mem_frame [OF assms(3,4,5)] by simp_all
  have rest: "zcontext (zlogger (ZerologLogger_With z k v)) = zcontext (zlogger z) @ [(k, v)]"
    "NullLogger_With nl k v = nl"
    "NullLogger_Info (NullLogger_derive nl ds) msg kvs w = w"
    by (simp_all add: ZerologLogger_With_def NullLogger_With_def NullLogger_Info_def)
  show ?thesis
    unfolding Let_def case_prod_unfold
    using new frame emit sib(1,2,3) emit_a emit_b derive_console [of ch g ds] derive_json [of jh g ds]
      mem zerolog_derive_context [of z ds] null_derive [of nl ds] rest
    by (intro conjI) assumption+
qed

text \<open>
  Claim C1 at the input where the code departs from it. On a logger of the JSON format,
  \<^verbatim>\<open>With("level", 1)\<close> does not return a logger: the handler formats the attribute
  at once, through the \<^verbatim>\<open>ReplaceAttr\<close> of \<^verbatim>\<open>New\<close>, whose type assertion
  panics on the integer. The same call on the console format, and on the JSON format
  under another key, returns the logger with the attribute bound, as the claim has it.
\<close>

theorem with_level_key_panics:
  "SlogLogger_With (logslog_New \<lparr>cfgLevel = '''', cfgFormat = ''json'', cfgGroupFieldName = ''''\<rparr>)
     ''level'' (AInt 1)
   = Inl (TypeAssertionError (Int64Value 1))
   \<and> SlogLogger_With (logslog_New \<lparr>cfgLevel = '''', cfgFormat = ''console'', cfgGroupFieldName = ''''\<rparr>)
     ''level'' (AInt 1)
   = Inr \<lparr>logger = Console \<lparr>opts = \<lparr>optLevel = Some LevelInfo, optReplaceAttr = Some New_ReplaceAttr\<rparr>,
                              attrs = [Attr ''level'' (Int64Value 1)], groups = [],
                              groupFieldName = ''_group''\<rparr>,
          lGroupFieldName = ''_group''\<rparr>
   \<and> SlogLogger_With (logslog_New \<lparr>cfgLevel = '''', cfgFormat = ''json'', cfgGroupFieldName = ''''\<rparr>)
     ''a'' (AInt 1)
   = Inr \<lparr>logger = JSON \<lparr>handler = \<lparr>jopts = \<lparr>optLevel = Some LevelInfo, optReplaceAttr = Some New_ReplaceAttr\<rparr>,
                                       jattrs = [Attr ''a'' (Int64Value 1)]\<rparr>\<rparr>,
          lGroupFieldName = ''_group''\<rparr>"
  by (simp add: SlogLogger_With_def Logger_With_def logslog_New_def Let_def NewJSONHandler_def
      NewConsoleHandler_def ConsoleHandler_WithAttrs_def JSONHandler_WithAttrs_def
      slog_JSONHandler_WithAttrs_def countEmptyGroups_def isEmptyGroup_def parse_info
      New_ReplaceAttr_def LevelKey_def)

section \<open>Entries seen through parent and child\<close>

lemmas mock_eval =
  logtesting_New_def make_slice_def alloc_array_def alloc_map_def alloc_obj_def alloc_cell_def
  empty_heap_def MockLogger_With_def MockLogger_WithGroup_def MockLogger_Info_def
  MockLogger_log_def append1_def nextslicecap_def MockLogger_HasEntry_def
  MockLogger_CountEntries_def MockLogger_GetEntries_def MockLogger_LastEntry_def
  MockLogger_Reset_def elems_def zeroLogger_def zeroEntry_def Let_def

text \<open>
  An emission through one logger changes no other logger object, so the number of
  entries any other logger shows stays what it was.
\<close>

lemma log_other_length:
  assumes "heap_ok h" and "a \<noteq> m"
  shows "length (MockLogger_GetEntries a (MockLogger_log m lv msg kvs h)) =
           length (MockLogger_GetEntries a h)"
proof -
  have ok': "heap_ok (MockLogger_log m lv msg kvs h)"
    by (rule heap_ok_log [OF assms(1)])
  have "length (MockLogger_GetEntries a (MockLogger_log m lv msg kvs h)) =
          slen (Entries (hobjs (MockLogger_log m lv msg kvs h) a))"
    using elems_length [OF ok', of a] by (simp add: MockLogger_GetEntries_def)
  also have "\<dots> = slen (Entries (hobjs h a))"
    by (simp add: log_other_object [OF assms(2)])
  also have "\<dots> = length (MockLogger_GetEntries a h)"
    using elems_length [OF assms(1), of a] by (simp add: MockLogger_GetEntries_def)
  finally show ?thesis .
qed

lemma child_emits:
  "(let (m, h1) = logtesting_New empty_heap;
        (c, h2) = MockLogger_With m ''a'' (AInt 1) h1;
        h3 = MockLogger_Info c ''x'' [] h2
    in MockLogger_HasEntry c ''info'' ''x'' h3
       \<and> \<not> MockLogger_HasEntry m ''info'' ''x'' h3
       \<and> MockLogger_CountEntries m ''info'' h3 = 0
       \<and> MockLogger_GetEntries m h3 = []
       \<and> fst (MockLogger_LastEntry m h3) = None)"
  by (simp add: mock_eval)

lemma parent_emits:
  "(let (m, h1) = logtesting_New empty_heap;
        (c, h2) = MockLogger_WithGroup m ''svc'' h1;
        h3 = MockLogger_Info m ''p'' [] h2
    in MockLogger_HasEntry m ''info'' ''p'' h3
       \<and> \<not> MockLogger_HasEntry c ''info'' ''p'' h3)"
  by (simp add: mock_eval)

lemma shared_slot:
  "(let (m, h1) = logtesting_New empty_heap;
        h2 = MockLogger_Info m ''e1'' [] h1;
        h3 = MockLogger_Info m ''e2'' [] h2;
        h4 = MockLogger_Info m ''e3'' [] h3;
        (c, h5) = MockLogger_With m ''a'' (AInt 1) h4;
        h6 = MockLogger_Info c ''child'' [] h5;
        h7 = MockLogger_Info m ''parent'' [] h6
    in map Message (MockLogger_GetEntries c h6) = [''e1'', ''e2'', ''e3'', ''child'']
       \<and> map Message (MockLogger_GetEntries c h7) = [''e1'', ''e2'', ''e3'', ''parent'']
       \<and> map Message (MockLogger_GetEntries m h7) = [''e1'', ''e2'', ''e3'', ''parent'']
       \<and> \<not> MockLogger_HasEntry c ''info'' ''child'' h7)"
proof -
  define m where "m = fst (logtesting_New empty_heap)"
  define h1 where "h1 = snd (logtesting_New empty_heap)"
  define h2 where "h2 = MockLogger_Info m ''e1'' [] h1"
  define h3 where "h3 = MockLogger_Info m ''e2'' [] h2"
  define h4 where "h4 = MockLogger_Info m ''e3'' [] h3"
  define c where "c = fst (MockLogger_With m ''a'' (AInt 1) h4)"
  define h5 where "h5 = snd (MockLogger_With m ''a'' (AInt 1) h4)"
  define h6 where "h6 = MockLogger_Info c ''child'' [] h5"
  define h7 where "h7 = MockLogger_Info m ''parent'' [] h6"
  have m: "m = 3"
    by (simp add: m_def logtesting_New_def make_slice_def alloc_array_def alloc_map_def
        alloc_obj_def empty_heap_def Let_def)
  have s1: "hlim h1 = 4" "Entries (hobjs h1 3) = \<lparr>sbase = 1, slen = 0, scap = 0\<rparr>"
    "harrays h1 1 = []"
    by (simp_all add: h1_def logtesting_New_def make_slice_def alloc_array_def alloc_map_def
        alloc_obj_def empty_heap_def Let_def)
  have s2: "hlim h2 = 6" "Entries (hobjs h2 3) = \<lparr>sbase = 5, slen = 1, scap = 1\<rparr>"
    "map Message (harrays h2 5) = [''e1'']" "length (harrays h2 5) = 1"
    using s1
    by (simp_all add: h2_def m MockLogger_Info_def log_grow nextslicecap_def elems_def)
  have s3: "hlim h3 = 8" "Entries (hobjs h3 3) = \<lparr>sbase = 7, slen = 2, scap = 2\<rparr>"
    "map Message (harrays h3 7) = [''e1'', ''e2'']" "length (harrays h3 7) = 2"
    using s2
    by (simp_all add: h3_def m MockLogger_Info_def log_grow nextslicecap_def elems_def take_map [symmetric])
  have s4: "hlim h4 = 10" "Entries (hobjs h4 3) = \<lparr>sbase = 9, slen = 3, scap = 4\<rparr>"
    "map Message (take 3 (harrays h4 9)) = [''e1'', ''e2'', ''e3'']" "length (harrays h4 9) = 4"
    using s3
    by (simp_all add: h4_def m MockLogger_Info_def log_grow nextslicecap_def elems_def take_map [symmetric])
  have c: "c = 11"
    using s4 by (simp add: c_def With_result)
  have s5: "hlim h5 = 12" "Entries (hobjs h5 3) = \<lparr>sbase = 9, slen = 3, scap = 4\<rparr>"
    "Entries (hobjs h5 11) = \<lparr>sbase = 9, slen = 3, scap = 4\<rparr>"
    "map Message (take 3 (harrays h5 9)) = [''e1'', ''e2'', ''e3'']" "length (harrays h5 9) = 4"
    using s4 by (simp_all add: h5_def m With_result)
  have s6: "hlim h6 = 13" "Entries (hobjs h6 3) = \<lparr>sbase = 9, slen = 3, scap = 4\<rparr>"
    "Entries (hobjs h6 11) = \<lparr>sbase = 9, slen = 4, scap = 4\<rparr>"
    "map Message (take 3 (harrays h6 9)) = [''e1'', ''e2'', ''e3'']" "length (harrays h6 9) = 4"
    "Message (harrays h6 9 ! 3) = ''child''"
    using s5 by (simp_all add: h6_def c MockLogger_Info_def log_in_place)
  have s7: "Entries (hobjs h7 3) = \<lparr>sbase = 9, slen = 4, scap = 4\<rparr>"
    "Entries (hobjs h7 11) = \<lparr>sbase = 9, slen = 4, scap = 4\<rparr>"
    "map Message (take 3 (harrays h7 9)) = [''e1'', ''e2'', ''e3'']" "length (harrays h7 9) = 4"
    "Message (harrays h7 9 ! 3) = ''parent''"
    using s6 by (simp_all add: h7_def m MockLogger_Info_def log_in_place)
  have four: "map Message (take 4 xs) = map Message (take 3 xs) @ [Message (xs ! 3)]"
    if "length xs = 4" for xs :: "LogEntry list"
  proof -
    have "take (Suc 3) xs = take 3 xs @ [xs ! 3]"
      using that by (intro take_Suc_conv_app_nth) simp
    then have "map Message (take (Suc 3) xs) = map Message (take 3 xs @ [xs ! 3])"
      by (rule arg_cong)
    then show ?thesis by simp
  qed
  have g6: "map Message (MockLogger_GetEntries c h6) = [''e1'', ''e2'', ''e3'', ''child'']"
    using s6 four [OF s6(5)] by (simp add: MockLogger_GetEntries_def elems_def c)
  have g7c: "map Message (MockLogger_GetEntries c h7) = [''e1'', ''e2'', ''e3'', ''parent'']"
    using s7 four [OF s7(4)] by (simp add: MockLogger_GetEntries_def elems_def c)
  have g7m: "map Message (MockLogger_GetEntries m h7) = [''e1'', ''e2'', ''e3'', ''parent'']"
    using s7 four [OF s7(4)] by (simp add: MockLogger_GetEntries_def elems_def m)
  have has: "\<And>es lv msg. HasEntry_loop es lv msg \<Longrightarrow> msg \<in> set (map Message es)"
  proof -
    fix es lv msg
    show "HasEntry_loop es lv msg \<Longrightarrow> msg \<in> set (map Message es)"
      by (induction es) (auto split: if_splits)
  qed
  have no: "\<not> MockLogger_HasEntry c ''info'' ''child'' h7"
  proof
    assume "MockLogger_HasEntry c ''info'' ''child'' h7"
    then have "''child'' \<in> set (map Message (MockLogger_GetEntries c h7))"
      using has by (simp add: MockLogger_HasEntry_def MockLogger_GetEntries_def)
    then show False
      by (simp add: g7c)
  qed
  show ?thesis
    unfolding Let_def case_prod_unfold
    using g6 g7c g7m no
    unfolding h7_def h6_def h5_def c_def h4_def h3_def h2_def h1_def m_def
    by (intro conjI) assumption+
qed

text \<open>
  Claim C3 does not hold of the code. A child receives a copy of the parent's slice
  value, and \<^verbatim>\<open>log\<close> assigns the result of \<^verbatim>\<open>append\<close> to the
  \<^verbatim>\<open>Entries\<close> field of the logger it is called on only. Three runs from
  \<^verbatim>\<open>New()\<close>:
  \<^item> the child \<^verbatim>\<open>With("a", 1)\<close> emits \<^verbatim>\<open>Info("x")\<close>: the child has the
    entry, the parent has none (\<^verbatim>\<open>HasEntry\<close> false, \<^verbatim>\<open>CountEntries\<close> 0,
    \<^verbatim>\<open>GetEntries\<close> empty, \<^verbatim>\<open>LastEntry\<close> nil);
  \<^item> the parent emits after deriving the child \<^verbatim>\<open>WithGroup("svc")\<close>: the child
    does not have the entry;
  \<^item> the parent emits three entries (its array then has room for a fourth), derives a
    child, the child emits \<^verbatim>\<open>child\<close> and then the parent emits
    \<^verbatim>\<open>parent\<close>: both store into the same slot of the shared array, and the
    child's own entry is gone from what the child shows.
\<close>

theorem child_entries_not_shared:
  "(let (m, h1) = logtesting_New empty_heap;
        (c, h2) = MockLogger_With m ''a'' (AInt 1) h1;
        h3 = MockLogger_Info c ''x'' [] h2
    in MockLogger_HasEntry c ''info'' ''x'' h3
       \<and> \<not> MockLogger_HasEntry m ''info'' ''x'' h3
       \<and> MockLogger_CountEntries m ''info'' h3 = 0
       \<and> MockLogger_GetEntries m h3 = []
       \<and> fst (MockLogger_LastEntry m h3) = None)
   \<and> (let (m, h1) = logtesting_New empty_heap;
           (c, h2) = MockLogger_WithGroup m ''svc'' h1;
           h3 = MockLogger_Info m ''p'' [] h2
       in MockLogger_HasEntry m ''info'' ''p'' h3
          \<and> \<not> MockLogger_HasEntry c ''info'' ''p'' h3)
   \<and> (let (m, h1) = logtesting_New empty_heap;
           h2 = MockLogger_Info m ''e1'' [] h1;
           h3 = MockLogger_Info m ''e2'' [] h2;
           h4 = MockLogger_Info m ''e3'' [] h3;
           (c, h5) = MockLogger_With m ''a'' (AInt 1) h4;
           h6 = MockLogger_Info c ''child'' [] h5;
           h7 = MockLogger_Info m ''parent'' [] h6
       in map Message (MockLogger_GetEntries c h6) = [''e1'', ''e2'', ''e3'', ''child'']
          \<and> map Message (MockLogger_GetEntries c h7) = [''e1'', ''e2'', ''e3'', ''parent'']
          \<and> map Message (MockLogger_GetEntries m h7) = [''e1'', ''e2'', ''e3'', ''parent'']
          \<and> \<not> MockLogger_HasEntry c ''info'' ''child'' h7)"
  by (intro conjI child_emits parent_emits shared_slot)

section \<open>The last entry\<close>

lemma GetEntries_empty_iff:
  assumes "heap_ok h"
  shows "(MockLogger_GetEntries m h = []) = (slen (Entries (hobjs h m)) = 0)"
  using elems_length [OF assms, of m]
  by (auto simp: MockLogger_GetEntries_def)

lemma last_GetEntries:
  assumes "heap_ok h" and "slen (Entries (hobjs h m)) \<noteq> 0"
  shows "last (MockLogger_GetEntries m h) =
           harrays h (sbase (Entries (hobjs h m))) ! (slen (Entries (hobjs h m)) - 1)"
proof -
  let ?s = "Entries (hobjs h m)"
  let ?xs = "take (slen ?s) (harrays h (sbase ?s))"
  have len: "length ?xs = slen ?s"
    using heap_ok_D(3,4) [OF assms(1), of m] by simp
  then have "?xs \<noteq> []"
    using assms(2) by auto
  then have "last ?xs = ?xs ! (length ?xs - 1)"
    by (rule last_conv_nth)
  also have "\<dots> = harrays h (sbase ?s) ! (slen ?s - 1)"
    using assms(2) heap_ok_D(3,4) [OF assms(1), of m] by (simp add: min_def)
  finally show ?thesis
    by (simp add: MockLogger_GetEntries_def elems_def)
qed

lemma LastEntry_some:
  assumes "heap_ok h" and "MockLogger_GetEntries m h \<noteq> []"
  shows "MockLogger_LastEntry m h =
           (Some (hlim h),
            h\<lparr>hcells := (hcells h)(hlim h := last (MockLogger_GetEntries m h)), hlim := hlim h + 1\<rparr>)"
proof -
  have ne: "slen (Entries (hobjs h m)) \<noteq> 0"
    using assms(2) GetEntries_empty_iff [OF assms(1), of m] by simp
  show ?thesis
    using ne last_GetEntries [OF assms(1) ne]
    by (simp add: MockLogger_LastEntry_def alloc_cell_def Let_def)
qed

lemma LastEntry_none_iff:
  assumes "heap_ok h"
  shows "(fst (MockLogger_LastEntry m h) = None) = (MockLogger_GetEntries m h = [])"
  using GetEntries_empty_iff [OF assms, of m]
  by (simp add: MockLogger_LastEntry_def alloc_cell_def Let_def)

lemma LastEntry_initial:
  "fst (MockLogger_LastEntry (fst (logtesting_New h)) (snd (logtesting_New h))) = None"
  by (simp add: MockLogger_LastEntry_def logtesting_New_def make_slice_def alloc_array_def
      alloc_map_def alloc_obj_def Let_def)

lemma LastEntry_Reset: "fst (MockLogger_LastEntry m (MockLogger_Reset m h)) = None"
  by (simp add: MockLogger_LastEntry_def MockLogger_Reset_def make_slice_def alloc_array_def Let_def)

lemma LastEntry_after_log:
  assumes "heap_ok h"
  shows "fst (MockLogger_LastEntry m (MockLogger_log m lv msg kvs h)) =
           Some (hlim (MockLogger_log m lv msg kvs h))"
    and "entry_view (snd (MockLogger_LastEntry m (MockLogger_log m lv msg kvs h)))
           (hcells (snd (MockLogger_LastEntry m (MockLogger_log m lv msg kvs h)))
              (hlim (MockLogger_log m lv msg kvs h))) =
           (lv, msg, kvs, bound_attrs h m, mgroup (hobjs h m))"
proof -
  let ?h' = "MockLogger_log m lv msg kvs h"
  have ok': "heap_ok ?h'" by (rule heap_ok_log [OF assms])
  have ne: "MockLogger_GetEntries m ?h' \<noteq> []"
    by (simp add: log_appends [OF assms])
  have res: "MockLogger_LastEntry m ?h' =
      (Some (hlim ?h'),
       ?h'\<lparr>hcells := (hcells ?h')(hlim ?h' := last (MockLogger_GetEntries m ?h')), hlim := hlim ?h' + 1\<rparr>)"
    by (rule LastEntry_some [OF ok' ne])
  show "fst (MockLogger_LastEntry m ?h') = Some (hlim ?h')"
    by (simp add: res)
  show "entry_view (snd (MockLogger_LastEntry m ?h'))
           (hcells (snd (MockLogger_LastEntry m ?h')) (hlim ?h')) =
           (lv, msg, kvs, bound_attrs h m, mgroup (hobjs h m))"
    using log_maps(1) [OF assms, of m lv msg kvs]
    by (simp add: res log_appends [OF assms] entry_view_def)
qed

lemma captured_assign_Message: "captured a (assign_Message p s h) = captured a h"
  by (simp add: captured_def assign_Message_def MockLogger_GetEntries_def elems_def entry_view_def)

lemma store_through_copy:
  assumes "heap_ok h" and "MockLogger_GetEntries m h \<noteq> []"
  shows "captured a (snd (MockLogger_LastEntry m h)) = captured a h"
    and "hmaps (store_Attrs (hlim h) k v (snd (MockLogger_LastEntry m h)))
           (Attrs (last (MockLogger_GetEntries m h))) =
         (hmaps h (Attrs (last (MockLogger_GetEntries m h))))(k \<mapsto> v)"
    and "MockLogger_GetEntries m (store_Attrs (hlim h) k v (snd (MockLogger_LastEntry m h))) =
           MockLogger_GetEntries m h"
  by (simp_all add: LastEntry_some [OF assms] captured_def MockLogger_GetEntries_def elems_def
      entry_view_def store_Attrs_def Let_def)

text \<open>
  Claim C10, as the code has it. In a well-formed memory \<^verbatim>\<open>LastEntry\<close> returns nil
  exactly when the logger shows no entries, which is so for a new logger and right after
  \<^verbatim>\<open>Reset\<close>. Otherwise it returns the address of a fresh variable that holds a
  copy of the last element of the logger's slice and changes nothing else; right after
  an emission through the same logger that element is the emitted entry. Assigning a
  field of the returned entry leaves every captured sequence as it was. The copy is
  shallow: its \<^verbatim>\<open>Attrs\<close> field refers to the map of the captured entry, so a store
  into that map through the returned entry changes the attributes of the captured entry
  (the sequence keeps its elements, the map they refer to has the new pair).
\<close>

theorem last_entry_copy:
  assumes "heap_ok h"
  shows
    "((fst (MockLogger_LastEntry m h) = None) = (MockLogger_GetEntries m h = []))
     \<and> fst (MockLogger_LastEntry (fst (logtesting_New h)) (snd (logtesting_New h))) = None
     \<and> fst (MockLogger_LastEntry m (MockLogger_Reset m h)) = None
     \<and> (MockLogger_GetEntries m h \<noteq> [] \<longrightarrow>
          MockLogger_LastEntry m h =
            (Some (hlim h),
             h\<lparr>hcells := (hcells h)(hlim h := last (MockLogger_GetEntries m h)), hlim := hlim h + 1\<rparr>))
     \<and> (let (p, h1) = MockLogger_LastEntry m (MockLogger_log m lv msg kvs h)
         in p = Some (hlim (MockLogger_log m lv msg kvs h))
            \<and> entry_view h1 (hcells h1 (the p)) = (lv, msg, kvs, bound_attrs h m, mgroup (hobjs h m)))
     \<and> captured a (assign_Message q s h) = captured a h
     \<and> (MockLogger_GetEntries m h \<noteq> [] \<longrightarrow>
          (let (p, h1) = MockLogger_LastEntry m h;
               h2 = store_Attrs (the p) k v h1
           in captured a h1 = captured a h
              \<and> MockLogger_GetEntries m h2 = MockLogger_GetEntries m h
              \<and> hmaps h2 (Attrs (last (MockLogger_GetEntries m h))) =
                  (hmaps h (Attrs (last (MockLogger_GetEntries m h))))(k \<mapsto> v)))"
proof (intro conjI impI)
  show "(fst (MockLogger_LastEntry m h) = None) = (MockLogger_GetEntries m h = [])"
    by (rule LastEntry_none_iff [OF assms])
  show "fst (MockLogger_LastEntry (fst (logtesting_New h)) (snd (logtesting_New h))) = None"
    by (rule LastEntry_initial)
  show "fst (MockLogger_LastEntry m (MockLogger_Reset m h)) = None"
    by (rule LastEntry_Reset)
  show "captured a (assign_Message q s h) = captured a h"
    by (rule captured_assign_Message)
  show "let (p, h1) = MockLogger_LastEntry m (MockLogger_log m lv msg kvs h)
         in p = Some (hlim (MockLogger_log m lv msg kvs h))
            \<and> entry_view h1 (hcells h1 (the p)) = (lv, msg, kvs, bound_attrs h m, mgroup (hobjs h m))"
    using LastEntry_after_log [OF assms, of m lv msg kvs]
    by (simp add: case_prod_unfold Let_def)
next
  assume ne: "MockLogger_GetEntries m h \<noteq> []"
  show "MockLogger_LastEntry m h =
            (Some (hlim h),
             h\<lparr>hcells := (hcells h)(hlim h := last (MockLogger_GetEntries m h)), hlim := hlim h + 1\<rparr>)"
    by (rule LastEntry_some [OF assms ne])
next
  assume ne: "MockLogger_GetEntries m h \<noteq> []"
  have p: "fst (MockLogger_LastEntry m h) = Some (hlim h)"
    by (simp add: LastEntry_some [OF assms ne])
  show "let (p, h1) = MockLogger_LastEntry m h;
               h2 = store_Attrs (the p) k v h1
           in captured a h1 = captured a h
              \<and> MockLogger_GetEntries m h2 = MockLogger_GetEntries m h
              \<and> hmaps h2 (Attrs (last (MockLogger_GetEntries m h))) =
                  (hmaps h (Attrs (last (MockLogger_GetEntries m h))))(k \<mapsto> v)"
    using store_through_copy(1) [OF assms ne, of a] store_through_copy(2,3) [OF assms ne, of k v]
    by (simp add: case_prod_unfold Let_def p)
qed

text \<open>
  The theorem at the memory after \<^verbatim>\<open>New()\<close> and one \<^verbatim>\<open>Info("x")\<close>: the
  logger shows an entry, and \<^verbatim>\<open>LastEntry\<close> returns a fresh address.
\<close>

theorem last_entry_copy_witness:
  "heap_ok (MockLogger_log (fst (logtesting_New empty_heap)) ''info'' ''x'' [] (snd (logtesting_New empty_heap)))
   \<and> MockLogger_GetEntries (fst (logtesting_New empty_heap))
        (MockLogger_log (fst (logtesting_New empty_heap)) ''info'' ''x'' [] (snd (logtesting_New empty_heap))) \<noteq> []
   \<and> fst (MockLogger_LastEntry (fst (logtesting_New empty_heap))
        (MockLogger_log (fst (logtesting_New empty_heap)) ''info'' ''x'' [] (snd (logtesting_New empty_heap))))
      = Some (hlim (MockLogger_log (fst (logtesting_New empty_heap)) ''info'' ''x'' [] (snd (logtesting_New empty_heap))))"
proof -
  let ?m = "fst (logtesting_New empty_heap)"
  let ?hs = "snd (logtesting_New empty_heap)"
  let ?h = "MockLogger_log ?m ''info'' ''x'' [] ?hs"
  have ok0: "heap_ok ?hs"
    by (rule heap_ok_New [OF heap_ok_empty])
  have ok: "heap_ok ?h"
    by (rule heap_ok_log [OF ok0])
  have ne: "MockLogger_GetEntries ?m ?h \<noteq> []"
    by (simp add: log_appends [OF ok0])
  show ?thesis
    using last_entry_copy [OF ok, of ?m] ok ne
    by simp
qed

text \<open>
  Claim C10 as stated fails: the copy is not independent. After \<^verbatim>\<open>New()\<close> and
  \<^verbatim>\<open>Info("x")\<close> the captured entry has no attribute \<^verbatim>\<open>k\<close>; after
  \<^verbatim>\<open>e := m.LastEntry(); e.Attrs["k"] = 1\<close> the captured entry has it.
\<close>

theorem last_entry_counterexample:
  "(let (m, h1) = logtesting_New empty_heap;
        h2 = MockLogger_Info m ''x'' [] h1;
        (p, h3) = MockLogger_LastEntry m h2;
        h4 = store_Attrs (the p) ''k'' (AInt 1) h3
    in map (\<lambda>e. hmaps h3 (Attrs e) ''k'') (MockLogger_GetEntries m h3) = [None]
       \<and> map (\<lambda>e. hmaps h4 (Attrs e) ''k'') (MockLogger_GetEntries m h4) = [Some (AInt 1)])"
  by (simp add: mock_eval store_Attrs_def)

end
